theory Spec2Isabelle
  imports Complex_Main "HOL-Library.Word"
begin

section \<open>Conventions of the embedding\<close>

text \<open>
  The theory embeds the hyperbolic update kernel \<open>HyperbolicModule::step\<close>
  (\<open>hyperbolic_module.template.h\<close>), the one-shot latch \<open>SynchronizationDispatch\<close>
  (\<open>openmp.h\<close>), the component transfer of \<open>MultiComponentVector\<close>
  (\<open>multicomponent_vector.h\<close>) and \<open>Limiter::apply_relaxation\<close>
  (\<open>euler_aeos/limiter.h\<close>).

  \<^item> The template parameter \<open>Number\<close> (\<open>float\<close> or \<open>double\<close>) is read as \<^typ>\<open>real\<close>:
    rounding, overflow and underflow are not represented. Where the program tests for
    infinities and NaN (the reduction of \<open>tau_max\<close>) the special values are represented by
    the type \<open>xreal\<close>; every other division states what happens for a zero divisor.
  \<^item> Machine integers that are incremented or used in index arithmetic are words or
    naturals with the reduction modulo \<open>2 ^ 32\<close> written out.
  \<^item> The OpenMP loops are run row after row in the order of the source text (the scalar
    loop over \<open>[n_internal, n_owned)\<close>, then the vectorised loop over \<open>[0, n_internal)\<close>);
    a vectorised iteration is run lane after lane.
  \<^item> Classes whose code is not part of the sources at hand (the Riemann solver, the
    indicator, the flux of the hyperbolic system, \<open>Limiter::limit\<close>, the sparse matrix
    accessors) are parameters of the definitions.
\<close>

section \<open>Definitions\<close>

subsection \<open>\<open>SynchronizationDispatch\<close> (\<open>openmp.h\<close>)\<close>

text \<open>
  The members of the class. \<open>payload_\<close> is a callback without a result; the model counts
  its invocations in \<open>payload_runs\<close>. \<open>n_threads_ready_\<close> is a \<open>std::atomic_int\<close>,
  a 32-bit counter whose increment wraps around.
\<close>

record sync_dispatch =
  executed_payload :: bool
  n_threads_ready :: "32 word"
  payload_runs :: nat

text \<open>The constructor and the destructor.\<close>

definition sync_dispatch_init :: sync_dispatch where
  "sync_dispatch_init = \<lparr>executed_payload = False, n_threads_ready = 0, payload_runs = 0\<rparr>"

definition sync_dispatch_destroy :: "sync_dispatch \<Rightarrow> sync_dispatch" where
  "sync_dispatch_destroy d =
     (if \<not> executed_payload d then d\<lparr>payload_runs := payload_runs d + 1\<rparr> else d)"

text \<open>
  \<open>check(thread_ready, condition)\<close>. The first argument says whether the translation unit
  was compiled with \<open>USE_COMMUNICATION_HIDING\<close>; without it the body is guarded by
  \<open>if constexpr (false)\<close>. The second is the value of \<open>omp_get_num_threads()\<close>. The
  caller's flag \<open>thread_ready\<close> is passed by reference: its new value is the first
  component of the result. The atomic pre-increment and the comparison are one step,
  so a sequence of calls in the order of their increments describes a parallel run.
\<close>

definition check ::
  "bool \<Rightarrow> nat \<Rightarrow> sync_dispatch \<Rightarrow> bool \<Rightarrow> bool \<Rightarrow> bool \<times> sync_dispatch" where
  "check use_communication_hiding omp_num_threads d thread_ready condition =
     (if use_communication_hiding \<and> thread_ready = False \<and> condition then
        (let d1 = d\<lparr>n_threads_ready := n_threads_ready d + 1\<rparr> in
         if sint (n_threads_ready d1) = int omp_num_threads
         then (True, d1\<lparr>executed_payload := True, payload_runs := payload_runs d1 + 1\<rparr>)
         else (True, d1))
      else (thread_ready, d))"

text \<open>
  A team of \<open>nt\<close> threads, each with its own flag (initially \<open>false\<close>), issues the calls
  \<open>(t, condition)\<close> of a list: thread \<open>t\<close> calls \<open>check\<close> with its flag and \<open>condition\<close>.
  \<open>dispatch_lifetime\<close> is the life of one dispatch object: construction, the calls,
  destruction.
\<close>

fun run_checks ::
  "bool \<Rightarrow> nat \<Rightarrow> (nat \<times> bool) list \<Rightarrow> bool list \<Rightarrow> sync_dispatch \<Rightarrow>
   bool list \<times> sync_dispatch" where
  "run_checks h nt [] flags d = (flags, d)"
| "run_checks h nt ((t, c) # cs) flags d =
     (case check h nt d (flags ! t) c of
        (r, d') \<Rightarrow> run_checks h nt cs (flags[t := r]) d')"

definition dispatch_lifetime :: "bool \<Rightarrow> nat \<Rightarrow> (nat \<times> bool) list \<Rightarrow> sync_dispatch" where
  "dispatch_lifetime h nt calls =
     sync_dispatch_destroy
       (snd (run_checks h nt calls (replicate nt False) sync_dispatch_init))"

text \<open>Used in the proofs: the number of flags that are set, and the invariant of a run.\<close>

definition n_ready :: "bool list \<Rightarrow> nat" where
  "n_ready flags = length (filter id flags)"

definition dispatch_inv :: "bool \<Rightarrow> nat \<Rightarrow> bool list \<Rightarrow> sync_dispatch \<Rightarrow> bool" where
  "dispatch_inv h nt flags d \<longleftrightarrow>
     length flags = nt \<and>
     payload_runs d = (if executed_payload d then 1 else 0) \<and>
     (executed_payload d \<longleftrightarrow> h \<and> n_ready flags = nt) \<and>
     (if h then n_threads_ready d = of_nat (n_ready flags) else n_ready flags = 0)"

subsection \<open>\<open>MultiComponentVector\<close> (\<open>multicomponent_vector.h\<close>)\<close>

text \<open>
  A distributed vector of deal.II on one rank: the locally owned entries followed by the
  ghost entries. \<open>local_element(i)\<close> addresses both ranges by the local index \<open>i\<close>; an
  index beyond them is a failed assertion, here \<open>None\<close>. The size of the owned range is
  \<open>get_partitioner()->local_size()\<close>.
\<close>

record 'a dist_vector =
  owned :: "'a list"
  ghosts :: "'a list"

definition local_element :: "'a dist_vector \<Rightarrow> nat \<Rightarrow> 'a option" where
  "local_element v i =
     (if i < length (owned v) then Some (owned v ! i)
      else if i - length (owned v) < length (ghosts v)
        then Some (ghosts v ! (i - length (owned v)))
      else None)"

definition set_local_element :: "'a dist_vector \<Rightarrow> nat \<Rightarrow> 'a \<Rightarrow> 'a dist_vector option" where
  "set_local_element v i x =
     (if i < length (owned v) then Some (v\<lparr>owned := (owned v)[i := x]\<rparr>)
      else if i - length (owned v) < length (ghosts v)
        then Some (v\<lparr>ghosts := (ghosts v)[i - length (owned v) := x]\<rparr>)
      else None)"

text \<open>
  \<open>update_ghost_values()\<close> replaces the ghost entries by the values received from their
  owners, which are an argument here.
\<close>

definition update_ghost_values :: "'a list \<Rightarrow> 'a dist_vector \<Rightarrow> 'a dist_vector" where
  "update_ghost_values incoming v = v\<lparr>ghosts := incoming\<rparr>"

text \<open>The index expression \<open>i * n_comp + component\<close>, computed in \<open>unsigned int\<close>.\<close>

definition component_index :: "nat \<Rightarrow> nat \<Rightarrow> nat \<Rightarrow> nat" where
  "component_index n_comp component i = (i * n_comp + component) mod 2 ^ 32"

text \<open>
  The loops of \<open>export_component\<close> and \<open>import_component\<close>, from the counter \<open>i\<close> on,
  and the two member functions. The first vector argument is \<open>*this\<close>.
\<close>

function export_loop ::
  "nat \<Rightarrow> nat \<Rightarrow> 'a dist_vector \<Rightarrow> nat \<Rightarrow> nat \<Rightarrow> 'a dist_vector \<Rightarrow>
   'a dist_vector option" where
  "export_loop n_comp component V local_size i s =
     (if i < local_size then
        (case local_element V (component_index n_comp component i) of
           None \<Rightarrow> None
         | Some x \<Rightarrow>
             (case set_local_element s i x of
                None \<Rightarrow> None
              | Some s' \<Rightarrow> export_loop n_comp component V local_size (Suc i) s'))
      else Some s)"
  by pat_completeness auto
termination
  by (relation "measure (\<lambda>(n_comp, component, V, local_size, i, s). local_size - i)") auto

definition export_component ::
  "nat \<Rightarrow> 'a list \<Rightarrow> 'a dist_vector \<Rightarrow> 'a dist_vector \<Rightarrow> nat \<Rightarrow>
   'a dist_vector option" where
  "export_component n_comp incoming V scalar_vector component =
     map_option (update_ghost_values incoming)
       (export_loop n_comp component V (length (owned scalar_vector)) 0 scalar_vector)"

function import_loop ::
  "nat \<Rightarrow> nat \<Rightarrow> 'a dist_vector \<Rightarrow> nat \<Rightarrow> nat \<Rightarrow> 'a dist_vector \<Rightarrow>
   'a dist_vector option" where
  "import_loop n_comp component scalar_vector local_size i V =
     (if i < local_size then
        (case local_element scalar_vector i of
           None \<Rightarrow> None
         | Some x \<Rightarrow>
             (case set_local_element V (component_index n_comp component i) x of
                None \<Rightarrow> None
              | Some V' \<Rightarrow>
                  import_loop n_comp component scalar_vector local_size (Suc i) V'))
      else Some V)"
  by pat_completeness auto
termination
  by (relation "measure (\<lambda>(n_comp, component, sv, local_size, i, V). local_size - i)") auto

definition import_component ::
  "nat \<Rightarrow> 'a dist_vector \<Rightarrow> 'a dist_vector \<Rightarrow> nat \<Rightarrow> 'a dist_vector option" where
  "import_component n_comp V scalar_vector component =
     import_loop n_comp component scalar_vector (length (owned scalar_vector)) 0 V"

subsection \<open>\<open>Limiter::apply_relaxation\<close> (\<open>euler_aeos/limiter.h\<close>)\<close>

text \<open>
  A quotient of two numbers. With a zero divisor the floating-point quotient is an
  infinity or NaN, which no real number stands for: the result is \<open>None\<close>, and a
  computation that meets it is not followed further.
\<close>

definition finite_quotient :: "real \<Rightarrow> real \<Rightarrow> real option" where
  "finite_quotient a b = (if b = 0 then None else Some (a / b))"

text \<open>
  The data members of the limiter: the array \<open>bounds_\<close> with its four entries, and the
  accumulators of the relaxation.
\<close>

record limiter_state =
  rho_min :: real
  rho_max :: real
  s_min :: real
  gamma_min :: real
  rho_relaxation_numerator :: real
  rho_relaxation_denominator :: real
  s_interp_max :: real

text \<open>\<open>dealii::Utilities::fixed_power<3>\<close>.\<close>

definition fixed_power_3 :: "real \<Rightarrow> real" where
  "fixed_power_3 x = x * x * x"

text \<open>
  The local variable \<open>r_i\<close> of \<open>apply_relaxation\<close> for the space dimension \<open>dim\<close> (here \<open>dim'\<close>).
  \<open>std::sqrt\<close> of a negative number is NaN.
\<close>

definition relaxation_r_i :: "nat \<Rightarrow> real \<Rightarrow> real \<Rightarrow> real option" where
  "relaxation_r_i dim' hd_i factor =
     (if hd_i < 0 then None
      else
        (let r_i = sqrt hd_i;
             r_i = (if dim' = 2 then fixed_power_3 (sqrt r_i)
                    else if dim' = 1 then fixed_power_3 r_i
                    else r_i)
         in Some (r_i * factor)))"

text \<open>
  \<open>apply_relaxation(hd_i, factor)\<close>. \<open>eps\<close> is \<open>std::numeric_limits<ScalarNumber>::epsilon()\<close>
  and \<open>interpolation_b\<close> the value of \<open>hyperbolic_system.eos_interpolation_b()\<close>.
\<close>

definition apply_relaxation ::
  "nat \<Rightarrow> real \<Rightarrow> real \<Rightarrow> real \<Rightarrow> real \<Rightarrow> limiter_state \<Rightarrow> limiter_state option" where
  "apply_relaxation dim' eps interpolation_b hd_i factor st =
     (case relaxation_r_i dim' hd_i factor of
        None \<Rightarrow> None
      | Some r_i \<Rightarrow>
     (case finite_quotient \<bar>rho_relaxation_numerator st\<bar>
             (\<bar>rho_relaxation_denominator st\<bar> + eps) of
        None \<Rightarrow> None
      | Some rho_relaxation \<Rightarrow>
     (let new_rho_min = max ((1 - r_i) * rho_min st) (rho_min st - rho_relaxation);
          new_s_min = max ((1 - r_i) * s_min st) (2 * s_min st - s_interp_max st);
          numerator = (gamma_min st + 1) * rho_max st;
          denominator = gamma_min st - 1 + 2 * interpolation_b * rho_max st
      in
     (case finite_quotient numerator denominator of
        None \<Rightarrow> None
      | Some upper_bound \<Rightarrow>
     (let rho_max_1 = min upper_bound ((1 + r_i) * rho_max st);
          rho_max_2 = min rho_max_1 (rho_max_1 + rho_relaxation)
      in Some (st\<lparr>rho_min := new_rho_min, s_min := new_s_min, rho_max := rho_max_2\<rparr>))))))"

subsection \<open>Numbers with infinities and NaN\<close>

text \<open>
  \<open>tau_max\<close> starts at \<open>std::numeric_limits<Number>::infinity()\<close> and is tested with
  \<open>std::isnan\<close> and \<open>std::isinf\<close>. \<open>xless\<close> is the comparison \<open><\<close> of IEEE 754: false
  whenever an operand is NaN.
\<close>

datatype xreal = Fin real | PInf | MInf | NaN

fun xless :: "xreal \<Rightarrow> xreal \<Rightarrow> bool" where
  "xless NaN b = False"
| "xless a NaN = False"
| "xless a MInf = False"
| "xless MInf b = True"
| "xless PInf b = False"
| "xless (Fin x) PInf = True"
| "xless (Fin x) (Fin y) = (x < y)"

definition isnan :: "xreal \<Rightarrow> bool" where
  "isnan a = (a = NaN)"

definition isinf :: "xreal \<Rightarrow> bool" where
  "isinf a = (a = PInf \<or> a = MInf)"

text \<open>
  The quotient \<open>cfl_ * mass / (Number(-2.) * d_sum)\<close> of step 2. \<open>d_sum\<close> starts at
  \<open>+0.0\<close> and only has entries subtracted from it, so a zero \<open>d_sum\<close> is \<open>+0.0\<close> and the
  divisor is \<open>-0.0\<close>: the quotient is then minus infinity for a positive dividend, plus
  infinity for a negative one and NaN for zero.
\<close>

definition tau_candidate :: "real \<Rightarrow> real \<Rightarrow> real \<Rightarrow> xreal" where
  "tau_candidate cfl_value mass d_sum =
     (if d_sum \<noteq> 0 then Fin (cfl_value * mass / (- 2 * d_sum))
      else if 0 < cfl_value * mass then MInf
      else if cfl_value * mass < 0 then PInf
      else NaN)"

text \<open>
  The loop \<open>while (current_tau_max > tau && !tau_max.compare_exchange_weak(...))\<close> stores
  \<open>tau\<close> when it is smaller than the stored value. \<open>Utilities::MPI::min\<close> combines the
  values of the ranks in the same way; the values of the other ranks are a list.
\<close>

definition tau_max_cas :: "xreal \<Rightarrow> xreal \<Rightarrow> xreal" where
  "tau_max_cas current_tau_max tau_i =
     (if xless tau_i current_tau_max then tau_i else current_tau_max)"

definition mpi_min :: "xreal \<Rightarrow> xreal list \<Rightarrow> xreal" where
  "mpi_min own others = fold (\<lambda>t acc. tau_max_cas acc t) others own"

definition mpi_logical_or :: "bool \<Rightarrow> bool list \<Rightarrow> bool" where
  "mpi_logical_or own others = (own \<or> list_ex id others)"

subsection \<open>Data of the time-step kernel (\<open>hyperbolic_module.template.h\<close>)\<close>

text \<open>
  Vectors are indexed by the local index of a degree of freedom, matrices by a row and
  the position \<open>col_idx\<close> in the row. \<open>write_entry\<close> stores one matrix entry.
\<close>

type_synonym 'a vec = "nat \<Rightarrow> 'a"
type_synonym 'a mat = "nat \<Rightarrow> nat \<Rightarrow> 'a"

definition write_entry :: "'a mat \<Rightarrow> 'a \<Rightarrow> nat \<Rightarrow> nat \<Rightarrow> 'a mat" where
  "write_entry m v i col_idx = m(i := (m i)(col_idx := v))"

datatype id_violation_strategy = warn | raise_exception

text \<open>
  The run-time parameters of the module and the compile-time options the kernel reads:
  the width of \<open>VectorizedArray<Number>\<close> and whether \<open>CHECK_BOUNDS\<close> is defined.
\<close>

record config =
  cfl :: real
  limiter_iter :: nat
  limiter_newton_tolerance :: real
  limiter_newton_max_iter :: nat
  cfl_with_boundary_dofs :: bool
  strategy :: id_violation_strategy
  simd_length :: nat
  check_bounds :: bool

text \<open>
  What the kernel reads from \<open>OfflineData\<close>. Modelled from the spec: the classes
  \<open>SparsityPatternSIMD\<close> and \<open>SparseMatrixSIMD\<close> are not among the sources; the
  sparsity pattern is given by \<open>row_length i\<close> and the column \<open>columns i col_idx\<close> at a
  position of row \<open>i\<close>, and the transposed accessors read the entry at position
  \<open>transposed_col i col_idx\<close> of row \<open>columns i col_idx\<close>. \<open>boundary_map_count i\<close> is
  \<open>boundary_map.count(i)\<close>; \<open>coupling_boundary_pairs\<close> are triples \<open>(i, col_idx, j)\<close>.
\<close>

record 'c offline_data =
  n_locally_internal :: nat
  n_locally_owned :: nat
  row_length :: "nat \<Rightarrow> nat"
  columns :: "nat \<Rightarrow> nat \<Rightarrow> nat"
  transposed_col :: "nat \<Rightarrow> nat \<Rightarrow> nat"
  lumped_mass_matrix :: "real vec"
  lumped_mass_matrix_inverse :: "real vec"
  mass_matrix :: "real mat"
  betaij_matrix :: "real mat"
  cij_matrix :: "'c mat"
  boundary_map_count :: "nat \<Rightarrow> nat"
  coupling_boundary_pairs :: "(nat \<times> nat \<times> nat) list"
  measure_of_omega :: real

definition get_transposed_entry :: "'c offline_data \<Rightarrow> 'a mat \<Rightarrow> nat \<Rightarrow> nat \<Rightarrow> 'a" where
  "get_transposed_entry D m i col_idx = m (columns D i col_idx) (transposed_col D i col_idx)"

text \<open>
  The classes the kernel is generic in. Their code is not among the sources, so they are
  parameters: \<open>flux_contract U c\<close> is the state with the components \<open>f(U)[k] * c\<close>;
  \<open>riemann_compute\<close> is \<open>RiemannSolver::compute\<close>; \<open>indicator_alpha\<close> stands for an
  \<open>Indicator\<close> after \<open>reset(i, U_i)\<close> and the calls \<open>add(js, U_j, c_ij)\<close> listed in its
  fourth argument, asked for \<open>alpha(hd_i)\<close>; \<open>limiter_bounds\<close> stands for a \<open>Limiter\<close>
  after \<open>reset(i)\<close>, the listed calls \<open>accumulate(js, U_i, U_j, U_ij_bar, beta_ij)\<close> and
  \<open>apply_relaxation(hd_i)\<close>, asked for \<open>bounds()\<close>; \<open>limit\<close> is \<open>Limiter::limit\<close> with its
  arguments bounds, \<open>U\<close>, \<open>P\<close>, tolerance and iteration cap.
\<close>

record ('u, 'c, 'p, 'q, 'b) system =
  flux_contract :: "'u \<Rightarrow> 'c \<Rightarrow> 'u"
  riemann_compute :: "'u \<Rightarrow> 'u \<Rightarrow> 'c \<Rightarrow> real"
  indicator_precompute :: "'u \<Rightarrow> 'p"
  indicator_alpha :: "'p vec \<Rightarrow> nat \<Rightarrow> 'u \<Rightarrow> (nat \<times> 'u \<times> 'c) list \<Rightarrow> real \<Rightarrow> real"
  limiter_precompute :: "'u \<Rightarrow> 'q"
  limiter_bounds :: "'q vec \<Rightarrow> nat \<Rightarrow> (nat \<times> 'u \<times> 'u \<times> 'u \<times> real) list \<Rightarrow> real \<Rightarrow> 'b"
  limit :: "'b \<Rightarrow> 'u \<Rightarrow> 'u \<Rightarrow> real \<Rightarrow> nat \<Rightarrow> real \<times> bool"
  is_admissible :: "'u \<Rightarrow> bool"

text \<open>
  What arrives from the other ranks during one step: the ghost entries delivered by each
  halo exchange (\<open>ghost_lij_next\<close> per limiter pass) and the other ranks' contributions
  to the two reductions.
\<close>

record ('u, 'p, 'q) halo =
  ghost_indicator_precomputed :: "'p vec"
  ghost_limiter_precomputed :: "'q vec"
  ghost_alpha :: "real vec"
  ghost_r :: "'u vec"
  ghost_lij :: "real mat"
  ghost_lij_next :: "nat \<Rightarrow> real mat"
  remote_tau_max :: "xreal list"
  remote_restart_needed :: "bool list"

text \<open>
  Everything one call of \<open>step\<close> reads: the module's parameters and collaborators and
  the arguments \<open>old_U\<close>, \<open>stage_U\<close>, \<open>stage_weights\<close> and \<open>tau\<close>. The template parameter
  \<open>stages\<close> is the length of \<open>stage_U\<close> and of \<open>stage_weights\<close>.
\<close>

record ('u, 'c, 'p, 'q, 'b) kernel_env =
  cfg :: config
  od :: "'c offline_data"
  sys :: "('u, 'c, 'p, 'q, 'b) system"
  hal :: "('u, 'p, 'q) halo"
  old_U :: "'u vec"
  stage_U :: "'u vec list"
  stage_weights :: "real list"
  tau_arg :: real

text \<open>
  Everything one call of \<open>step\<close> writes: the transient vectors and matrices of the
  module, its two counters (\<open>unsigned int\<close>), the argument \<open>new_U\<close>, and the local
  variables \<open>tau_max\<close>, \<open>tau\<close> and \<open>restart_needed\<close>. Three fields are not variables of
  the source: \<open>non_finite\<close> is set when a division had a zero divisor, after which
  floating-point values are infinities or NaN and the real numbers of the model do not
  stand for them; \<open>limit_successes\<close> lists the \<open>success\<close> results of the calls of
  \<open>Limiter::limit\<close> in their order, and \<open>admissible_results\<close> the results of the calls
  of \<open>is_admissible\<close> that \<open>CHECK_BOUNDS\<close> compiles in.
\<close>

record ('u, 'p, 'q, 'b) kernel_state =
  indicator_precomputed_values :: "'p vec"
  limiter_precomputed_values :: "'q vec"
  alpha :: "real vec"
  bounds :: "'b vec"
  r :: "'u vec"
  dij_matrix :: "real mat"
  lij_matrix :: "real mat"
  lij_matrix_next :: "real mat"
  pij_matrix :: "'u mat"
  n_restarts :: "32 word"
  n_warnings :: "32 word"
  new_U :: "'u vec"
  tau_max :: xreal
  tau :: real
  restart_needed :: bool
  non_finite :: bool
  limit_successes :: "bool list"
  admissible_results :: "bool list"

text \<open>
  A halo exchange (\<open>update_ghost_values\<close>, \<open>update_ghost_rows\<close>) overwrites the entries
  of the ghost range, the indices from \<open>n_owned\<close> on, by the values that arrive.
\<close>

definition update_ghost_range :: "nat \<Rightarrow> (nat \<Rightarrow> 'a) \<Rightarrow> (nat \<Rightarrow> 'a) \<Rightarrow> (nat \<Rightarrow> 'a)" where
  "update_ghost_range n_owned incoming v = (\<lambda>j. if j < n_owned then v j else incoming j)"

subsection \<open>The loops over the stencil\<close>

text \<open>
  \<open>loop_indices stride left right\<close> are the values of \<open>i\<close> in
  \<open>for (i = left; i < right; i += stride_size)\<close>. An iteration with the vectorised type
  works on the \<open>stride\<close> rows \<open>i, ..., i + stride - 1\<close> at once; \<open>loop_rows\<close> lists, for
  each iteration and lane, the loop variable, the stride and the row. \<open>stencil_rows\<close> is
  the order of the two calls \<open>loop(Number(), n_internal, n_owned)\<close> and
  \<open>loop(VA(), 0, n_internal)\<close> that every pass makes.
\<close>

definition loop_indices :: "nat \<Rightarrow> nat \<Rightarrow> nat \<Rightarrow> nat list" where
  "loop_indices stride left right = filter (\<lambda>i. stride dvd (i - left)) [left..<right]"

definition loop_rows :: "nat \<Rightarrow> nat \<Rightarrow> nat \<Rightarrow> (nat \<times> nat \<times> nat) list" where
  "loop_rows stride left right =
     concat (map (\<lambda>i. map (\<lambda>k. (i, stride, i + k)) [0..<stride])
       (loop_indices stride left right))"

definition stencil_rows :: "('u, 'c, 'p, 'q, 'b) kernel_env \<Rightarrow> (nat \<times> nat \<times> nat) list" where
  "stencil_rows E =
     loop_rows 1 (n_locally_internal (od E)) (n_locally_owned (od E)) @
     loop_rows (simd_length (cfg E)) 0 (n_locally_internal (od E))"

text \<open>
  \<open>all_below_diagonal<T>(i, js)\<close> at position \<open>col_idx\<close> of the rows of one iteration:
  every lane \<open>k\<close> has its column below \<open>i + k\<close>. With stride 1 this is \<open>j < i\<close>.
\<close>

definition all_below_diagonal :: "'c offline_data \<Rightarrow> nat \<Rightarrow> nat \<Rightarrow> nat \<Rightarrow> bool" where
  "all_below_diagonal D stride i col_idx =
     list_all (\<lambda>k. columns D (i + k) col_idx < i + k) [0..<stride]"

text \<open>\<open>Number(row_length - 1)\<close>, the subtraction being one of \<open>unsigned int\<close>.\<close>

definition number_of_row_length_minus_1 :: "nat \<Rightarrow> real" where
  "number_of_row_length_minus_1 rl = real (unat ((of_nat rl :: 32 word) - 1))"

text \<open>
  \<open>weight = -std::accumulate(stage_weights.begin(), stage_weights.end(), -1.)\<close>.
\<close>

definition stage_weight :: "real list \<Rightarrow> real" where
  "stage_weight ws = - fold (\<lambda>w acc. acc + w) ws (- 1)"

subsection \<open>Step 0: precomputed values\<close>

definition step_0_row ::
  "('u, 'c, 'p, 'q, 'b) kernel_env \<Rightarrow> nat \<times> nat \<times> nat \<Rightarrow>
   ('u, 'p, 'q, 'b) kernel_state \<Rightarrow> ('u, 'p, 'q, 'b) kernel_state" where
  "step_0_row E = (\<lambda>(i, stride, row) s.
     if row_length (od E) i = 1 then s
     else
       (let U_i = old_U E row
        in s\<lparr>indicator_precomputed_values :=
               (indicator_precomputed_values s)(row := indicator_precompute (sys E) U_i),
             limiter_precomputed_values :=
               (limiter_precomputed_values s)(row := limiter_precompute (sys E) U_i)\<rparr>))"

definition step_0 ::
  "('u, 'c, 'p, 'q, 'b) kernel_env \<Rightarrow>
   ('u, 'p, 'q, 'b) kernel_state \<Rightarrow> ('u, 'p, 'q, 'b) kernel_state" where
  "step_0 E s =
     (let s1 = fold (step_0_row E) (stencil_rows E) s
      in s1\<lparr>indicator_precomputed_values :=
               update_ghost_range (n_locally_owned (od E))
                 (ghost_indicator_precomputed (hal E)) (indicator_precomputed_values s1),
             limiter_precomputed_values :=
               update_ghost_range (n_locally_owned (od E))
                 (ghost_limiter_precomputed (hal E)) (limiter_precomputed_values s1)\<rparr>)"

subsection \<open>Step 1: off-diagonal \<open>d_ij\<close> and \<open>alpha_i\<close>\<close>

text \<open>
  One column of the inner loop. The accumulator holds the row of \<open>dij_matrix_\<close> being
  written, the calls of \<open>indicator.add\<close> so far and whether a division by zero occurred.
  The entry is written for every column that is not skipped. For a zero norm the
  quotient \<open>c_ij / norm\<close> is NaN in floating point; the model then writes the product
  with the real number that \<open>inverse\<close> gives and sets the flag.
\<close>

definition step_1_col ::
  "('u::real_vector, 'c::real_normed_vector, 'p, 'q, 'b) kernel_env \<Rightarrow> nat \<Rightarrow> nat \<Rightarrow> nat \<Rightarrow>
   nat \<Rightarrow> (nat \<Rightarrow> real) \<times> (nat \<times> 'u \<times> 'c) list \<times> bool \<Rightarrow>
   (nat \<Rightarrow> real) \<times> (nat \<times> 'u \<times> 'c) list \<times> bool" where
  "step_1_col E i stride row col_idx = (\<lambda>(d_row, adds, nf).
     (let U_i = old_U E row;
          j = columns (od E) row col_idx;
          U_j = old_U E j;
          c_ij = cij_matrix (od E) row col_idx;
          adds1 = adds @ [(j, U_j, c_ij)]
      in if all_below_diagonal (od E) stride i col_idx then (d_row, adds1, nf)
         else
           (let n_ij = c_ij /\<^sub>R norm c_ij;
                lambda_max = riemann_compute (sys E) U_i U_j n_ij;
                d = norm c_ij * lambda_max
            in (d_row(col_idx := d), adds1, nf \<or> norm c_ij = 0))))"

definition step_1_row ::
  "('u::real_vector, 'c::real_normed_vector, 'p, 'q, 'b) kernel_env \<Rightarrow> nat \<times> nat \<times> nat \<Rightarrow>
   ('u, 'p, 'q, 'b) kernel_state \<Rightarrow> ('u, 'p, 'q, 'b) kernel_state" where
  "step_1_row E = (\<lambda>(i, stride, row) s.
     if row_length (od E) i = 1 then s
     else
       (let U_i = old_U E row;
            (d_row, adds, nf) =
               fold (step_1_col E i stride row) [1..<row_length (od E) i]
                 (dij_matrix s row, [], non_finite s);
            mass = lumped_mass_matrix (od E) row;
            hd_i = mass * (1 / measure_of_omega (od E));
            alpha_i = indicator_alpha (sys E) (indicator_precomputed_values s) row U_i adds hd_i
        in s\<lparr>dij_matrix := (dij_matrix s)(row := d_row),
             alpha := (alpha s)(row := alpha_i),
             non_finite := nf\<rparr>))"

definition step_1 ::
  "('u::real_vector, 'c::real_normed_vector, 'p, 'q, 'b) kernel_env \<Rightarrow>
   ('u, 'p, 'q, 'b) kernel_state \<Rightarrow> ('u, 'p, 'q, 'b) kernel_state" where
  "step_1 E s = fold (step_1_row E) (stencil_rows E) s"

subsection \<open>Step 2: \<open>d_ij\<close> at the boundary, symmetry, diagonal and \<open>tau_max\<close>\<close>

text \<open>
  One entry \<open>(i, col_idx, j)\<close> of \<open>coupling_boundary_pairs\<close>. (The \<open>Assert\<close> on the norm of
  \<open>c_ji\<close> is compiled in debug mode only.)
\<close>

definition step_2_coupling ::
  "('u::real_vector, 'c::real_normed_vector, 'p, 'q, 'b) kernel_env \<Rightarrow> nat \<times> nat \<times> nat \<Rightarrow>
   ('u, 'p, 'q, 'b) kernel_state \<Rightarrow> ('u, 'p, 'q, 'b) kernel_state" where
  "step_2_coupling E = (\<lambda>(i, col_idx, j) s.
     (let U_i = old_U E i;
          U_j = old_U E j;
          c_ji = get_transposed_entry (od E) (cij_matrix (od E)) i col_idx;
          n_ji = c_ji /\<^sub>R norm c_ji;
          lambda_max = riemann_compute (sys E) U_j U_i n_ji;
          d = max (dij_matrix s i col_idx) (norm c_ji * lambda_max)
      in s\<lparr>dij_matrix := write_entry (dij_matrix s) d i col_idx,
           non_finite := (non_finite s \<or> norm c_ji = 0)\<rparr>))"

text \<open>
  One column of the symmetrisation of row \<open>i\<close>: the accumulator is the matrix and
  \<open>d_sum\<close>.
\<close>

definition step_2_col ::
  "'c offline_data \<Rightarrow> nat \<Rightarrow> nat \<Rightarrow> real mat \<times> real \<Rightarrow> real mat \<times> real" where
  "step_2_col D i col_idx = (\<lambda>(m, d_sum).
     (let j = columns D i col_idx;
          m1 = (if j < i then write_entry m (get_transposed_entry D m i col_idx) i col_idx
                else m)
      in (m1, d_sum - m1 i col_idx)))"

definition step_2_row ::
  "('u, 'c, 'p, 'q, 'b) kernel_env \<Rightarrow> nat \<Rightarrow>
   ('u, 'p, 'q, 'b) kernel_state \<Rightarrow> ('u, 'p, 'q, 'b) kernel_state" where
  "step_2_row E i s =
     (if row_length (od E) i = 1 then s
      else
        (let (m, d_sum) =
               fold (step_2_col (od E) i) [1..<row_length (od E) i] (dij_matrix s, 0);
             m1 = write_entry m d_sum i 0;
             mass = lumped_mass_matrix (od E) i;
             tau_i = tau_candidate (cfl (cfg E)) mass d_sum
         in s\<lparr>dij_matrix := m1,
              tau_max :=
                (if boundary_map_count (od E) i = 0 \<or> cfl_with_boundary_dofs (cfg E)
                 then tau_max_cas (tau_max s) tau_i
                 else tau_max s)\<rparr>))"

text \<open>
  Step 2 up to the reduction over the ranks, the condition of the \<open>AssertThrow\<close> that
  follows, and the choice of \<open>tau\<close>.
\<close>

definition step_2 ::
  "('u::real_vector, 'c::real_normed_vector, 'p, 'q, 'b) kernel_env \<Rightarrow>
   ('u, 'p, 'q, 'b) kernel_state \<Rightarrow> ('u, 'p, 'q, 'b) kernel_state" where
  "step_2 E s =
     (let s1 = fold (step_2_coupling E) (coupling_boundary_pairs (od E)) s;
          s2 = fold (step_2_row E) [0..<n_locally_owned (od E)] s1
      in s2\<lparr>alpha := update_ghost_range (n_locally_owned (od E)) (ghost_alpha (hal E)) (alpha s2),
            tau_max := mpi_min (tau_max s2) (remote_tau_max (hal E))\<rparr>)"

definition tau_max_accepted :: "xreal \<Rightarrow> bool" where
  "tau_max_accepted t = (\<not> isnan t \<and> \<not> isinf t \<and> xless (Fin 0) t)"

definition finite_value :: "xreal \<Rightarrow> real" where
  "finite_value t = (case t of Fin x \<Rightarrow> x | _ \<Rightarrow> 0)"

definition choose_tau ::
  "('u, 'p, 'q, 'b) kernel_state \<Rightarrow> ('u, 'p, 'q, 'b) kernel_state" where
  "choose_tau s = s\<lparr>tau := (if tau s = 0 then finite_value (tau_max s) else tau s)\<rparr>"

subsection \<open>Step 3: low-order update, limiter bounds and \<open>r_i\<close>\<close>

text \<open>
  The bar state \<open>U_ij_bar\<close> of one column, from \<open>temp\<close> with the components
  \<open>(f_j[k] - f_i[k]) * c_ij\<close> and from \<open>d_ij_inv\<close>.
\<close>

definition bar_state :: "'u::real_vector \<Rightarrow> 'u \<Rightarrow> 'u \<Rightarrow> real \<Rightarrow> 'u" where
  "bar_state U_i U_j temp d_ij_inv = (1 / 2) *\<^sub>R (U_i + U_j - d_ij_inv *\<^sub>R temp)"

text \<open>
  The contribution of the stage states to \<open>r_i\<close> in one column: the sum over the stages
  \<open>s\<close> of \<open>stage_weights[s] * (-(f_jHs[s][k] - f_iHs[s][k]) * c_ij)\<close>.
\<close>

definition stage_flux_r ::
  "('u::real_vector, 'c, 'p, 'q, 'b) kernel_env \<Rightarrow> nat \<Rightarrow> nat \<Rightarrow> 'c \<Rightarrow> 'u" where
  "stage_flux_r E row j c_ij =
     fold (\<lambda>(U_s, w) acc.
             acc + w *\<^sub>R (- (flux_contract (sys E) (U_s j) c_ij - flux_contract (sys E) (U_s row) c_ij)))
       (zip (stage_U E) (stage_weights E)) 0"

text \<open>
  One column of the inner loop of step 3. The accumulator holds \<open>U_i_new\<close>, \<open>r_i\<close>, the
  calls of \<open>limiter.accumulate\<close> so far and whether a division by zero occurred. The
  source forms \<open>d_ij_inv = Number(1.) / d_ij\<close> without a test of \<open>d_ij\<close>; for a zero
  \<open>d_ij\<close> it is an infinity in floating point, and the model continues with the real
  number that the division gives and sets the flag.
\<close>

definition step_3_col ::
  "('u::real_vector, 'c, 'p, 'q, 'b) kernel_env \<Rightarrow> ('u, 'p, 'q, 'b) kernel_state \<Rightarrow>
   nat \<Rightarrow> nat \<Rightarrow> 'u \<times> 'u \<times> (nat \<times> 'u \<times> 'u \<times> 'u \<times> real) list \<times> bool \<Rightarrow>
   'u \<times> 'u \<times> (nat \<times> 'u \<times> 'u \<times> 'u \<times> real) list \<times> bool" where
  "step_3_col E s row col_idx = (\<lambda>(U_i_new, r_i, accs, nf).
     (let U_i = old_U E row;
          alpha_i = alpha s row;
          m_i_inv = lumped_mass_matrix_inverse (od E) row;
          j = columns (od E) row col_idx;
          U_j = old_U E j;
          alpha_j = alpha s j;
          d_ij = dij_matrix s row col_idx;
          d_ijH = d_ij * (alpha_i + alpha_j) * (1 / 2);
          c_ij = cij_matrix (od E) row col_idx;
          d_ij_inv = 1 / d_ij;
          temp = flux_contract (sys E) U_j c_ij - flux_contract (sys E) U_i c_ij;
          r_i1 = r_i + (stage_weight (stage_weights E) *\<^sub>R (- temp) + d_ijH *\<^sub>R (U_j - U_i));
          U_ij_bar = bar_state U_i U_j temp d_ij_inv;
          r_i2 = r_i1 + stage_flux_r E row j c_ij;
          beta_ij = betaij_matrix (od E) row col_idx
      in (U_i_new + (tau s * m_i_inv * 2 * d_ij) *\<^sub>R U_ij_bar, r_i2,
          accs @ [(j, U_i, U_j, U_ij_bar, beta_ij)], nf \<or> d_ij = 0)))"

definition step_3_row ::
  "('u::real_vector, 'c, 'p, 'q, 'b) kernel_env \<Rightarrow> nat \<times> nat \<times> nat \<Rightarrow>
   ('u, 'p, 'q, 'b) kernel_state \<Rightarrow> ('u, 'p, 'q, 'b) kernel_state" where
  "step_3_row E = (\<lambda>(i, stride, row) s.
     if row_length (od E) i = 1 then s
     else
       (let (U_i_new, r_i, accs, nf) =
              fold (step_3_col E s row) [0..<row_length (od E) i]
                (old_U E row, 0, [], non_finite s);
            m_i = lumped_mass_matrix (od E) row;
            hd_i = m_i * (1 / measure_of_omega (od E))
        in s\<lparr>new_U := (new_U s)(row := U_i_new),
             r := (r s)(row := r_i),
             bounds := (bounds s)(row :=
               limiter_bounds (sys E) (limiter_precomputed_values s) row accs hd_i),
             non_finite := nf\<rparr>))"

definition step_3 ::
  "('u::real_vector, 'c, 'p, 'q, 'b) kernel_env \<Rightarrow>
   ('u, 'p, 'q, 'b) kernel_state \<Rightarrow> ('u, 'p, 'q, 'b) kernel_state" where
  "step_3 E s =
     (let s1 = fold (step_3_row E) (stencil_rows E) s
      in if limiter_iter (cfg E) \<noteq> 0
         then s1\<lparr>r := update_ghost_range (n_locally_owned (od E)) (ghost_r (hal E)) (r s1)\<rparr>
         else s1)"

subsection \<open>Step 4: \<open>p_ij\<close> and the first \<open>l_ij\<close>\<close>

text \<open>
  The flux contributions to \<open>p_ij\<close>, present when \<open>stages != 0\<close>.
\<close>

definition stage_flux_p ::
  "('u::real_vector, 'c, 'p, 'q, 'b) kernel_env \<Rightarrow> nat \<Rightarrow> nat \<Rightarrow> 'c \<Rightarrow> 'u" where
  "stage_flux_p E row j c_ij =
     (if stage_U E = [] then 0
      else
        (stage_weight (stage_weights E) - 1) *\<^sub>R
          (- (flux_contract (sys E) (old_U E j) c_ij + flux_contract (sys E) (old_U E row) c_ij)) +
        fold (\<lambda>(U_s, w) acc.
                acc + w *\<^sub>R (- (flux_contract (sys E) (U_s j) c_ij + flux_contract (sys E) (U_s row) c_ij)))
          (zip (stage_U E) (stage_weights E)) 0)"

text \<open>
  The value of \<open>p_ij\<close> that is written to \<open>pij_matrix_\<close>.
\<close>

definition step_4_p_ij ::
  "('u::real_vector, 'c, 'p, 'q, 'b) kernel_env \<Rightarrow> ('u, 'p, 'q, 'b) kernel_state \<Rightarrow>
   nat \<Rightarrow> nat \<Rightarrow> nat \<Rightarrow> 'u" where
  "step_4_p_ij E s rl row col_idx =
     (let U_i = old_U E row;
          m_i_inv = lumped_mass_matrix_inverse (od E) row;
          r_i = r s row;
          alpha_i = alpha s row;
          lambda_inv = number_of_row_length_minus_1 rl;
          factor = tau s * m_i_inv * lambda_inv;
          j = columns (od E) row col_idx;
          U_j = old_U E j;
          c_ij = cij_matrix (od E) row col_idx;
          r_j = r s j;
          alpha_j = alpha s j;
          m_j_inv = lumped_mass_matrix_inverse (od E) j;
          d_ij = dij_matrix s row col_idx;
          d_ijH = d_ij * (alpha_i + alpha_j) * (1 / 2);
          m_ij = mass_matrix (od E) row col_idx;
          b_ij = (if col_idx = 0 then 1 else 0) - m_ij * m_j_inv;
          b_ji = (if col_idx = 0 then 1 else 0) - m_ij * m_i_inv;
          p_ij = (d_ijH - d_ij) *\<^sub>R (U_j - U_i) + b_ij *\<^sub>R r_j - b_ji *\<^sub>R r_i
      in factor *\<^sub>R (p_ij + stage_flux_p E row j c_ij))"

text \<open>
  One column of the inner loop of step 4. The accumulator holds the rows of
  \<open>pij_matrix_\<close> and \<open>lij_matrix_\<close> being written, \<open>restart_needed\<close> and the list of
  \<open>success\<close> results.
\<close>

definition step_4_col ::
  "('u::real_vector, 'c, 'p, 'q, 'b) kernel_env \<Rightarrow> ('u, 'p, 'q, 'b) kernel_state \<Rightarrow>
   nat \<Rightarrow> nat \<Rightarrow> nat \<Rightarrow> (nat \<Rightarrow> 'u) \<times> (nat \<Rightarrow> real) \<times> bool \<times> bool list \<Rightarrow>
   (nat \<Rightarrow> 'u) \<times> (nat \<Rightarrow> real) \<times> bool \<times> bool list" where
  "step_4_col E s rl row col_idx = (\<lambda>(p_row, l_row, restart, successes).
     (let p_ij = step_4_p_ij E s rl row col_idx;
          (l_ij, success) =
             limit (sys E) (bounds s row) (new_U s row) p_ij
               (limiter_newton_tolerance (cfg E)) (limiter_newton_max_iter (cfg E))
      in (p_row(col_idx := p_ij), l_row(col_idx := l_ij),
          (if \<not> success then True else restart), successes @ [success])))"

definition step_4_row ::
  "('u::real_vector, 'c, 'p, 'q, 'b) kernel_env \<Rightarrow> nat \<times> nat \<times> nat \<Rightarrow>
   ('u, 'p, 'q, 'b) kernel_state \<Rightarrow> ('u, 'p, 'q, 'b) kernel_state" where
  "step_4_row E = (\<lambda>(i, stride, row) s.
     if row_length (od E) i = 1 then s
     else
       (let (p_row, l_row, restart, successes) =
              fold (step_4_col E s (row_length (od E) i) row) [0..<row_length (od E) i]
                (pij_matrix s row, lij_matrix s row, restart_needed s, limit_successes s)
        in s\<lparr>pij_matrix := (pij_matrix s)(row := p_row),
             lij_matrix := (lij_matrix s)(row := l_row),
             restart_needed := restart,
             limit_successes := successes\<rparr>))"

definition step_4 ::
  "('u::real_vector, 'c, 'p, 'q, 'b) kernel_env \<Rightarrow>
   ('u, 'p, 'q, 'b) kernel_state \<Rightarrow> ('u, 'p, 'q, 'b) kernel_state" where
  "step_4 E s =
     (if limiter_iter (cfg E) \<noteq> 0
      then
        (let s1 = fold (step_4_row E) (stencil_rows E) s
         in s1\<lparr>lij_matrix :=
                  update_ghost_range (n_locally_owned (od E)) (ghost_lij (hal E)) (lij_matrix s1)\<rparr>)
      else s)"

subsection \<open>Steps 5, 6, ...: the limiter passes\<close>

text \<open>
  The first inner loop of a limiter pass for one row: \<open>l_ij\<close> is the smaller of the
  entry and the transposed entry, \<open>U_i_new\<close> gets \<open>l_ij * lambda * p_ij\<close> added, and
  \<open>lij_row\<close> keeps \<open>l_ij\<close> unless this is the last round. \<open>lij_row\<close> is a buffer that is
  only read at positions written for the same row.
\<close>

definition sweep_update_col ::
  "('u::real_vector, 'c, 'p, 'q, 'b) kernel_env \<Rightarrow> ('u, 'p, 'q, 'b) kernel_state \<Rightarrow>
   bool \<Rightarrow> real \<Rightarrow> nat \<Rightarrow> nat \<Rightarrow> 'u \<times> (nat \<Rightarrow> real) \<Rightarrow> 'u \<times> (nat \<Rightarrow> real)" where
  "sweep_update_col E s last_round lambda row col_idx = (\<lambda>(U_i_new, lij_row).
     (let l_ij = min (lij_matrix s row col_idx)
                     (get_transposed_entry (od E) (lij_matrix s) row col_idx);
          p_ij = pij_matrix s row col_idx
      in (U_i_new + (l_ij * lambda) *\<^sub>R p_ij,
          if \<not> last_round then lij_row(col_idx := l_ij) else lij_row)))"

text \<open>
  The second inner loop, run unless this is the last round. \<open>shortcut\<close> is the value of
  the test \<open>limiter_iter_ == 2\<close>. The accumulator holds the rows of \<open>lij_matrix_next_\<close>
  and \<open>pij_matrix_\<close> being written, \<open>restart_needed\<close> and the list of \<open>success\<close> results.
\<close>

definition sweep_next_col ::
  "('u::real_vector, 'c, 'p, 'q, 'b) kernel_env \<Rightarrow> ('u, 'p, 'q, 'b) kernel_state \<Rightarrow>
   bool \<Rightarrow> 'u \<Rightarrow> (nat \<Rightarrow> real) \<Rightarrow> nat \<Rightarrow> nat \<Rightarrow>
   (nat \<Rightarrow> real) \<times> (nat \<Rightarrow> 'u) \<times> bool \<times> bool list \<Rightarrow>
   (nat \<Rightarrow> real) \<times> (nat \<Rightarrow> 'u) \<times> bool \<times> bool list" where
  "sweep_next_col E s shortcut U_i_new lij_row row col_idx =
     (\<lambda>(l_next_row, p_row, restart, successes).
     (let old_l_ij = lij_row col_idx;
          new_p_ij = (1 - old_l_ij) *\<^sub>R p_row col_idx;
          (new_l_ij, success) =
             limit (sys E) (bounds s row) U_i_new new_p_ij
               (limiter_newton_tolerance (cfg E)) (limiter_newton_max_iter (cfg E));
          restart1 = (if \<not> success then True else restart)
      in if shortcut
         then (l_next_row(col_idx := (1 - old_l_ij) * new_l_ij), p_row, restart1,
               successes @ [success])
         else (l_next_row(col_idx := new_l_ij), p_row(col_idx := new_p_ij), restart1,
               successes @ [success])))"

text \<open>
  The three parts of the loop body for one row \<open>row\<close> of the iteration \<open>i\<close>: the first
  inner loop; the check compiled in by \<open>CHECK_BOUNDS\<close> and the write of \<open>U_i_new\<close>; the
  second inner loop with the writes of its results.
\<close>

definition sweep_update ::
  "('u::real_vector, 'c, 'p, 'q, 'b) kernel_env \<Rightarrow> ('u, 'p, 'q, 'b) kernel_state \<Rightarrow>
   bool \<Rightarrow> nat \<Rightarrow> nat \<Rightarrow> 'u \<times> (nat \<Rightarrow> real)" where
  "sweep_update E s last_round i row =
     (let lambda = 1 / number_of_row_length_minus_1 (row_length (od E) i)
      in fold (sweep_update_col E s last_round lambda row) [0..<row_length (od E) i]
           (new_U s row, \<lambda>col_idx. 0))"

definition sweep_write_U ::
  "('u, 'c, 'p, 'q, 'b) kernel_env \<Rightarrow> nat \<Rightarrow> 'u \<Rightarrow>
   ('u, 'p, 'q, 'b) kernel_state \<Rightarrow> ('u, 'p, 'q, 'b) kernel_state" where
  "sweep_write_U E row U_i_new s =
     s\<lparr>new_U := (new_U s)(row := U_i_new),
       restart_needed :=
         (if check_bounds (cfg E) \<and> \<not> is_admissible (sys E) U_i_new then True
          else restart_needed s),
       admissible_results :=
         (if check_bounds (cfg E)
          then admissible_results s @ [is_admissible (sys E) U_i_new]
          else admissible_results s)\<rparr>"

definition sweep_next ::
  "('u::real_vector, 'c, 'p, 'q, 'b) kernel_env \<Rightarrow> bool \<Rightarrow> 'u \<Rightarrow> (nat \<Rightarrow> real) \<Rightarrow>
   nat \<Rightarrow> nat \<Rightarrow> ('u, 'p, 'q, 'b) kernel_state \<Rightarrow> ('u, 'p, 'q, 'b) kernel_state" where
  "sweep_next E shortcut U_i_new lij_row i row s =
     (let (l_next_row, p_row, restart, successes) =
            fold (sweep_next_col E s shortcut U_i_new lij_row row) [0..<row_length (od E) i]
              (lij_matrix_next s row, pij_matrix s row, restart_needed s, limit_successes s)
      in s\<lparr>lij_matrix_next := (lij_matrix_next s)(row := l_next_row),
           pij_matrix := (pij_matrix s)(row := p_row),
           restart_needed := restart,
           limit_successes := successes\<rparr>)"

definition sweep_row ::
  "('u::real_vector, 'c, 'p, 'q, 'b) kernel_env \<Rightarrow> bool \<Rightarrow> bool \<Rightarrow> nat \<times> nat \<times> nat \<Rightarrow>
   ('u, 'p, 'q, 'b) kernel_state \<Rightarrow> ('u, 'p, 'q, 'b) kernel_state" where
  "sweep_row E shortcut last_round = (\<lambda>(i, stride, row) s.
     if row_length (od E) i = 1 then s
     else
       (let (U_i_new, lij_row) = sweep_update E s last_round i row;
            s1 = sweep_write_U E row U_i_new s
        in if last_round then s1
           else sweep_next E shortcut U_i_new lij_row i row s1))"

text \<open>
  One limiter pass with its synchronisation: unless this is the last round the ghost
  rows of \<open>lij_matrix_next_\<close> arrive and the two matrices are swapped.
  \<open>sweep_with\<close> takes the outcome of the test \<open>limiter_iter_ == 2\<close> as an argument;
  \<open>sweep\<close> is the pass of the source.
\<close>

definition sweep_with ::
  "('u::real_vector, 'c, 'p, 'q, 'b) kernel_env \<Rightarrow> bool \<Rightarrow> nat \<Rightarrow>
   ('u, 'p, 'q, 'b) kernel_state \<Rightarrow> ('u, 'p, 'q, 'b) kernel_state" where
  "sweep_with E shortcut pass s =
     (let last_round = (pass + 1 = limiter_iter (cfg E));
          s1 = fold (sweep_row E shortcut last_round) (stencil_rows E) s
      in if last_round then s1
         else
           (let l_next = update_ghost_range (n_locally_owned (od E))
                           (ghost_lij_next (hal E) pass) (lij_matrix_next s1)
            in s1\<lparr>lij_matrix := l_next, lij_matrix_next := lij_matrix s1\<rparr>))"

definition sweep ::
  "('u::real_vector, 'c, 'p, 'q, 'b) kernel_env \<Rightarrow> nat \<Rightarrow>
   ('u, 'p, 'q, 'b) kernel_state \<Rightarrow> ('u, 'p, 'q, 'b) kernel_state" where
  "sweep E pass s = sweep_with E (limiter_iter (cfg E) = 2) pass s"

definition sweeps ::
  "('u::real_vector, 'c, 'p, 'q, 'b) kernel_env \<Rightarrow>
   ('u, 'p, 'q, 'b) kernel_state \<Rightarrow> ('u, 'p, 'q, 'b) kernel_state" where
  "sweeps E s = fold (sweep E) [0..<limiter_iter (cfg E)] s"

subsection \<open>The whole step\<close>

text \<open>
  A call of \<open>step\<close> returns \<open>tau_max\<close> or throws: the \<open>AssertThrow\<close> after step 2
  (\<open>ExcMessage\<close>) or \<open>Restart\<close>. The third outcome is one of the model only: a division
  by zero has occurred, the program goes on with infinities or NaN, and what it does
  with them (in the Riemann solver and the limiter, whose code is not at hand) is not
  described here.
\<close>

datatype exception = ExcMessage | Restart

datatype outcome = Returned real | Threw exception | Not_finite

text \<open>
  The local variables at the start of \<open>step\<close>. \<open>measure_of_omega_inverse\<close> is a quotient
  by \<open>measure_of_omega()\<close>.
\<close>

definition step_begin ::
  "('u, 'c, 'p, 'q, 'b) kernel_env \<Rightarrow>
   ('u, 'p, 'q, 'b) kernel_state \<Rightarrow> ('u, 'p, 'q, 'b) kernel_state" where
  "step_begin E s =
     s\<lparr>tau_max := PInf, tau := tau_arg E, restart_needed := False,
       non_finite := (measure_of_omega (od E) = 0), limit_successes := [],
       admissible_results := []\<rparr>"

text \<open>The end of \<open>step\<close>: the reduction of \<open>restart_needed\<close> and the two strategies.\<close>

definition finalise ::
  "('u, 'c, 'p, 'q, 'b) kernel_env \<Rightarrow> ('u, 'p, 'q, 'b) kernel_state \<Rightarrow>
   outcome \<times> ('u, 'p, 'q, 'b) kernel_state" where
  "finalise E s =
     (let s1 = s\<lparr>restart_needed :=
                  mpi_logical_or (restart_needed s) (remote_restart_needed (hal E))\<rparr>
      in if restart_needed s1 then
           (case strategy (cfg E) of
              warn \<Rightarrow> (Returned (finite_value (tau_max s1)), s1\<lparr>n_warnings := n_warnings s1 + 1\<rparr>)
            | raise_exception \<Rightarrow> (Threw Restart, s1\<lparr>n_restarts := n_restarts s1 + 1\<rparr>))
         else (Returned (finite_value (tau_max s1)), s1))"

definition through_step_2 ::
  "('u::real_vector, 'c::real_normed_vector, 'p, 'q, 'b) kernel_env \<Rightarrow>
   ('u, 'p, 'q, 'b) kernel_state \<Rightarrow> ('u, 'p, 'q, 'b) kernel_state" where
  "through_step_2 E s = step_2 E (step_1 E (step_0 E (step_begin E s)))"

definition after_step_2 ::
  "('u::real_vector, 'c::real_normed_vector, 'p, 'q, 'b) kernel_env \<Rightarrow>
   ('u, 'p, 'q, 'b) kernel_state \<Rightarrow> ('u, 'p, 'q, 'b) kernel_state" where
  "after_step_2 E s = sweeps E (step_4 E (step_3 E (choose_tau s)))"

definition step ::
  "('u::real_vector, 'c::real_normed_vector, 'p, 'q, 'b) kernel_env \<Rightarrow>
   ('u, 'p, 'q, 'b) kernel_state \<Rightarrow> outcome \<times> ('u, 'p, 'q, 'b) kernel_state" where
  "step E s =
     (let s2 = through_step_2 E s
      in if non_finite s2 then (Not_finite, s2)
         else if \<not> tau_max_accepted (tau_max s2) then (Threw ExcMessage, s2)
         else
           (let s3 = after_step_2 E s2
            in if non_finite s3 then (Not_finite, s3) else finalise E s3))"

subsection \<open>Well-formed inputs\<close>

text \<open>
  What the offline data promise the kernel. The vectorised range is made of whole
  groups of \<open>simd_length\<close> rows and precedes the scalar range.
\<close>

definition wf_ranges :: "('u, 'c, 'p, 'q, 'b) kernel_env \<Rightarrow> bool" where
  "wf_ranges E \<longleftrightarrow>
     1 \<le> simd_length (cfg E) \<and>
     simd_length (cfg E) dvd n_locally_internal (od E) \<and>
     n_locally_internal (od E) \<le> n_locally_owned (od E)"


text \<open>
  Column 0 of a row is its diagonal and no other column is; the transposed position of
  an entry \<open>(i, j)\<close> with an owned \<open>j\<close> is a position of row \<open>j\<close> that holds column \<open>i\<close>,
  and its own transposed position is the entry.
\<close>

definition wf_transposed :: "'c offline_data \<Rightarrow> bool" where
  "wf_transposed D \<longleftrightarrow>
     list_all (\<lambda>i.
       list_all (\<lambda>col_idx.
         (let j = columns D i col_idx; tc = transposed_col D i col_idx
          in ((col_idx = 0) = (j = i)) \<and>
             (if j < n_locally_owned D
              then tc < row_length D j \<and> columns D j tc = i \<and> transposed_col D j tc = col_idx
              else True)))
         [0..<row_length D i])
       [0..<n_locally_owned D]"


subsection \<open>Notions used in the statements and proofs\<close>


text \<open>
  The counters, the flag and the two records of results, and how a pass after step 2
  may change them: the counters stay, the records grow, and the flag is set exactly when
  it was set or a new result is a failure.
\<close>

definition control ::
  "('u, 'p, 'q, 'b) kernel_state \<Rightarrow> 32 word \<times> 32 word \<times> bool \<times> bool list \<times> bool list" where
  "control s =
     (n_restarts s, n_warnings s, restart_needed s, limit_successes s, admissible_results s)"

definition control_step ::
  "('u, 'p, 'q, 'b) kernel_state \<Rightarrow> ('u, 'p, 'q, 'b) kernel_state \<Rightarrow> bool" where
  "control_step s s' \<longleftrightarrow>
     n_restarts s' = n_restarts s \<and> n_warnings s' = n_warnings s \<and>
     (\<exists>new_l new_a.
        limit_successes s' = limit_successes s @ new_l \<and>
        admissible_results s' = admissible_results s @ new_a \<and>
        (restart_needed s' \<longleftrightarrow> restart_needed s \<or> False \<in> set new_l \<or> False \<in> set new_a))"

subsection \<open>A small example\<close>

text \<open>
  Three degrees of freedom with scalar states and a one-dimensional \<open>c_ij\<close>: rows 0 and 1
  are coupled to each other and form one vectorised group of width 2, row 2 is
  constrained. The flux is linear, the Riemann solver returns the wave speed 1, the
  indicator returns one half, and \<open>limit\<close> returns one half with success.
\<close>

definition example_offline_data :: "real offline_data" where
  "example_offline_data =
     \<lparr>n_locally_internal = 2, n_locally_owned = 3,
      row_length = (\<lambda>i. if i = 2 then 1 else 2),
      columns = (\<lambda>i col_idx. if col_idx = 0 then i else 1 - i),
      transposed_col = (\<lambda>i col_idx. col_idx),
      lumped_mass_matrix = (\<lambda>i. 1),
      lumped_mass_matrix_inverse = (\<lambda>i. 1),
      mass_matrix = (\<lambda>i col_idx. if col_idx = 0 then 3 / 4 else 1 / 4),
      betaij_matrix = (\<lambda>i col_idx. 1),
      cij_matrix = (\<lambda>i col_idx. if col_idx = 0 then 0 else if i = 0 then 1 else - 1),
      boundary_map_count = (\<lambda>i. 0),
      coupling_boundary_pairs = [],
      measure_of_omega = 2\<rparr>"

definition example_system :: "(real, real, unit, unit, unit) system" where
  "example_system =
     \<lparr>flux_contract = (\<lambda>U c. U * c),
      riemann_compute = (\<lambda>U_i U_j n_ij. 1),
      indicator_precompute = (\<lambda>U. ()),
      indicator_alpha = (\<lambda>pv i U_i adds hd_i. 1 / 2),
      limiter_precompute = (\<lambda>U. ()),
      limiter_bounds = (\<lambda>pv i accs hd_i. ()),
      limit = (\<lambda>b U P tol n. (1 / 2, True)),
      is_admissible = (\<lambda>U. True)\<rparr>"

definition example_halo :: "(real, unit, unit) halo" where
  "example_halo =
     \<lparr>ghost_indicator_precomputed = (\<lambda>j. ()), ghost_limiter_precomputed = (\<lambda>j. ()),
      ghost_alpha = (\<lambda>j. 0), ghost_r = (\<lambda>j. 0), ghost_lij = (\<lambda>j col_idx. 0),
      ghost_lij_next = (\<lambda>pass j col_idx. 0), remote_tau_max = [],
      remote_restart_needed = []\<rparr>"

definition example_config :: config where
  "example_config =
     \<lparr>cfl = 1 / 5, limiter_iter = 2, limiter_newton_tolerance = 1 / 10,
      limiter_newton_max_iter = 2, cfl_with_boundary_dofs = False, strategy = warn,
      simd_length = 2, check_bounds = False\<rparr>"

definition example_env :: "(real, real, unit, unit, unit) kernel_env" where
  "example_env =
     \<lparr>cfg = example_config, od = example_offline_data, sys = example_system,
      hal = example_halo, old_U = (\<lambda>i. if i = 0 then 1 else 3), stage_U = [],
      stage_weights = [], tau_arg = 0\<rparr>"


text \<open>
  Variants of the example: a system whose wave speed is zero; a limiter whose calls
  fail, under either strategy.
\<close>

definition example_env_still :: "(real, real, unit, unit, unit) kernel_env" where
  "example_env_still =
     example_env\<lparr>sys := example_system\<lparr>riemann_compute := (\<lambda>U_i U_j n_ij. 0)\<rparr>\<rparr>"

definition example_env_failing :: "(real, real, unit, unit, unit) kernel_env" where
  "example_env_failing =
     example_env\<lparr>sys := example_system\<lparr>limit := (\<lambda>b U P tol n. (0, False))\<rparr>\<rparr>"

definition example_env_raising :: "(real, real, unit, unit, unit) kernel_env" where
  "example_env_raising =
     example_env_failing\<lparr>cfg := example_config\<lparr>strategy := raise_exception\<rparr>\<rparr>"

section \<open>Theorems\<close>

subsection \<open>\<open>SynchronizationDispatch\<close>\<close>

lemma n_ready_le: "n_ready flags \<le> length flags"
  by (simp add: n_ready_def)

lemma n_ready_flip:
  "t < length flags \<Longrightarrow> \<not> flags ! t \<Longrightarrow> n_ready (flags[t := True]) = Suc (n_ready flags)"
proof (induction flags arbitrary: t)
  case Nil
  then show ?case by simp
next
  case (Cons a flags)
  then show ?case by (cases t) (auto simp: n_ready_def)
qed

lemma n_ready_full: "n_ready flags = length flags \<longleftrightarrow> (\<forall>t < length flags. flags ! t)"
proof (induction flags)
  case Nil
  then show ?case by (simp add: n_ready_def)
next
  case (Cons a flags)
  have le: "length (filter id flags) \<le> length flags" by simp
  show ?case
  proof (cases a)
    case True
    with Cons show ?thesis
      by (auto simp: n_ready_def less_Suc_eq_0_disj)
  next
    case False
    with le show ?thesis by (auto simp: n_ready_def simp del: length_filter_le)
  qed
qed

lemma sint_of_nat_small: "n < 2 ^ 31 \<Longrightarrow> sint (of_nat n :: 32 word) = int n"
  by (simp add: signed_of_nat signed_take_bit_int_eq_self)

lemma dispatch_inv_init:
  "dispatch_inv h nt (replicate nt False) sync_dispatch_init \<longleftrightarrow> 1 \<le> nt \<or> \<not> h"
  by (auto simp: dispatch_inv_def sync_dispatch_init_def n_ready_def)

lemma check_flag:
  "check h nt d b c = (b', d') \<Longrightarrow> b' = (b \<or> (h \<and> c))"
  by (auto simp: check_def Let_def split: if_splits)

text \<open>One call of \<open>check\<close> by a thread of the team keeps the invariant.\<close>

lemma check_inv:
  assumes inv: "dispatch_inv h nt flags d"
    and t: "t < nt" and nt: "nt < 2 ^ 31"
    and chk: "check h nt d (flags ! t) c = (b', d')"
  shows "dispatch_inv h nt (flags[t := b']) d'"
proof (cases "h \<and> \<not> flags ! t \<and> c")
  case False
  with chk have "b' = flags ! t" "d' = d"
    by (auto simp: check_def)
  with inv show ?thesis by simp
next
  case True
  from inv have len: "length flags = nt" by (simp add: dispatch_inv_def)
  from True inv have cnt: "n_threads_ready d = of_nat (n_ready flags)"
    by (simp add: dispatch_inv_def)
  from True len t have flip: "n_ready (flags[t := True]) = Suc (n_ready flags)"
    by (simp add: n_ready_flip)
  have bound: "n_ready (flags[t := True]) \<le> nt"
    using n_ready_le [of "flags[t := True]"] len by simp
  with flip nt have small: "Suc (n_ready flags) < 2 ^ 31" by simp
  have s: "sint (n_threads_ready d + 1) = int (Suc (n_ready flags))"
    using sint_of_nat_small [OF small] cnt by (simp add: add.commute)
  from True inv flip bound have notex: "\<not> executed_payload d"
    by (auto simp: dispatch_inv_def)
  from True chk have b': "b' = True" by (auto simp: check_def Let_def split: if_splits)
  have cnt': "n_threads_ready d + 1 = of_nat (n_ready (flags[t := True]))"
    by (simp add: flip cnt)
  show ?thesis
  proof (cases "Suc (n_ready flags) = nt")
    case eq: True
    with True chk s have "d' = d\<lparr>n_threads_ready := n_threads_ready d + 1,
        executed_payload := True, payload_runs := payload_runs d + 1\<rparr>"
      by (auto simp: check_def Let_def)
    moreover from eq flip have "n_ready (flags[t := True]) = nt" by simp
    ultimately show ?thesis
      using inv True b' notex cnt' by (simp add: dispatch_inv_def)
  next
    case ne: False
    with True chk s have "d' = d\<lparr>n_threads_ready := n_threads_ready d + 1\<rparr>"
      by (auto simp: check_def Let_def)
    moreover from ne flip have "n_ready (flags[t := True]) \<noteq> nt" by simp
    ultimately show ?thesis
      using inv True b' notex cnt' by (simp add: dispatch_inv_def)
  qed
qed

text \<open>
  A run keeps the invariant, and a thread's flag is set exactly when communication hiding
  is compiled in and one of its calls had a true condition.
\<close>

lemma run_checks_inv:
  "dispatch_inv h nt flags d \<Longrightarrow> nt < 2 ^ 31 \<Longrightarrow> list_all (\<lambda>(t, c). t < nt) calls \<Longrightarrow>
   run_checks h nt calls flags d = (flags', d') \<Longrightarrow>
   dispatch_inv h nt flags' d' \<and>
   (\<forall>u < nt. flags' ! u \<longleftrightarrow> flags ! u \<or> (h \<and> (u, True) \<in> set calls))"
proof (induction calls arbitrary: flags d)
  case Nil
  then show ?case by simp
next
  case (Cons call calls)
  obtain t c where call: "call = (t, c)" by (cases call)
  obtain b' d1 where chk: "check h nt d (flags ! t) c = (b', d1)"
    by (cases "check h nt d (flags ! t) c")
  from Cons.prems call have t: "t < nt" by simp
  from Cons.prems(1) have len: "length flags = nt" by (simp add: dispatch_inv_def)
  have inv1: "dispatch_inv h nt (flags[t := b']) d1"
    using check_inv [OF Cons.prems(1) t Cons.prems(2) chk] .
  from Cons.prems call chk have run: "run_checks h nt calls (flags[t := b']) d1 = (flags', d')"
    by simp
  from Cons.prems call have rest: "list_all (\<lambda>(t, c). t < nt) calls" by simp
  note ih = Cons.IH [OF inv1 Cons.prems(2) rest run]
  have b': "b' = (flags ! t \<or> (h \<and> c))" using check_flag [OF chk] .
  have "\<forall>u<nt. flags' ! u \<longleftrightarrow> flags ! u \<or> (h \<and> (u, True) \<in> set (call # calls))"
  proof (intro allI impI)
    fix u assume u: "u < nt"
    with ih have "flags' ! u \<longleftrightarrow> (flags[t := b']) ! u \<or> (h \<and> (u, True) \<in> set calls)"
      by blast
    with u len t b' call
    show "flags' ! u \<longleftrightarrow> flags ! u \<or> (h \<and> (u, True) \<in> set (call # calls))"
      by (cases "u = t") auto
  qed
  with ih show ?case by blast
qed

lemma dispatch_executed_iff:
  assumes nt: "1 \<le> nt" "nt < 2 ^ 31" and calls: "list_all (\<lambda>(t, c). t < nt) calls"
    and run: "run_checks h nt calls (replicate nt False) sync_dispatch_init = (fl, d)"
  shows "executed_payload d \<longleftrightarrow> h \<and> (\<forall>t<nt. (t, True) \<in> set calls)"
    and "payload_runs d = (if executed_payload d then 1 else 0)"
proof -
  have init: "dispatch_inv h nt (replicate nt False) sync_dispatch_init"
    using nt by (simp add: dispatch_inv_init)
  from run_checks_inv [OF init nt(2) calls run]
  have inv: "dispatch_inv h nt fl d"
    and fl: "\<forall>u<nt. fl ! u \<longleftrightarrow> (replicate nt False) ! u \<or> (h \<and> (u, True) \<in> set calls)"
    by blast+
  from inv have len: "length fl = nt" by (simp add: dispatch_inv_def)
  have full: "n_ready fl = nt \<longleftrightarrow> (\<forall>t<nt. fl ! t)"
    using n_ready_full [of fl] len by simp
  from fl have "(\<forall>t<nt. fl ! t) \<longleftrightarrow> (\<forall>t<nt. h \<and> (t, True) \<in> set calls)" by simp
  with full nt show "executed_payload d \<longleftrightarrow> h \<and> (\<forall>t<nt. (t, True) \<in> set calls)"
    using inv by (auto simp: dispatch_inv_def)
  from inv show "payload_runs d = (if executed_payload d then 1 else 0)"
    by (simp add: dispatch_inv_def)
qed

text \<open>
  C8. For every sequence of \<open>check(thread_ready, condition)\<close> calls on a
  \<open>SynchronizationDispatch\<close> followed by its destruction, the stored callback is invoked
  exactly once: it fires inside \<open>check\<close> at the moment the count of threads whose condition
  has first become true reaches the number of threads in the team, and if that never
  happens it fires in the destructor; it is never invoked twice.

  The source guards the body of \<open>check\<close> with \<open>#ifdef USE_COMMUNICATION_HIDING\<close>. Without
  the option nothing is counted and nothing fires inside \<open>check\<close>, also when every thread
  of the team has seen its condition become true: a team of one thread whose single call
  has a true condition leaves \<open>check\<close> with the callback not yet run, and the destructor
  runs it.
\<close>

theorem dispatch_without_hiding_counterexample:
  "payload_runs (snd (run_checks False 1 [(0, True)] (replicate 1 False) sync_dispatch_init)) = 0
   \<and> payload_runs (dispatch_lifetime False 1 [(0, True)]) = 1"
  by (simp add: dispatch_lifetime_def sync_dispatch_destroy_def check_def
      sync_dispatch_init_def)

text \<open>
  C8, as the code has it. For a team of \<open>nt\<close> threads (\<open>1 \<le> nt\<close>, an \<open>int\<close>) and every
  sequence of calls by threads of the team: after the calls the callback has run once if
  the code was compiled with \<open>USE_COMMUNICATION_HIDING\<close> and every thread of the team has
  made a call with a true condition, and not at all otherwise; after the destructor it
  has run exactly once. As this holds for every sequence, hence for every prefix of a
  run, the run inside \<open>check\<close> happens in the call that completes the team.
\<close>

theorem dispatch_payload_exactly_once:
  assumes "1 \<le> nt" and "nt < 2 ^ 31" and "list_all (\<lambda>(t, c). t < nt) calls"
  shows "payload_runs (snd (run_checks h nt calls (replicate nt False) sync_dispatch_init)) =
           (if h \<and> (\<forall>t < nt. (t, True) \<in> set calls) then 1 else 0)
         \<and> payload_runs (dispatch_lifetime h nt calls) = 1"
proof -
  obtain fl d where run: "run_checks h nt calls (replicate nt False) sync_dispatch_init = (fl, d)"
    by (cases "run_checks h nt calls (replicate nt False) sync_dispatch_init")
  note ex = dispatch_executed_iff [OF assms run]
  from ex run show ?thesis
    by (simp add: dispatch_lifetime_def sync_dispatch_destroy_def)
qed

theorem dispatch_payload_exactly_once_witness:
  "payload_runs (snd (run_checks True 2 [(0, True), (1, False), (1, True), (0, True)]
       (replicate 2 False) sync_dispatch_init)) = 1
   \<and> payload_runs (snd (run_checks True 2 [(0, True), (1, False)]
       (replicate 2 False) sync_dispatch_init)) = 0
   \<and> payload_runs (dispatch_lifetime True 2 [(0, True), (1, False)]) = 1"
  using dispatch_payload_exactly_once [of 2 "[(0, True), (1, False), (1, True), (0, True)]" True]
    dispatch_payload_exactly_once [of 2 "[(0, True), (1, False)]" True]
  by (simp add: dispatch_lifetime_def sync_dispatch_destroy_def check_def
      sync_dispatch_init_def numeral_2_eq_2)

subsection \<open>\<open>MultiComponentVector\<close>\<close>

declare export_loop.simps [simp del] import_loop.simps [simp del]

text \<open>Within the owned range of the vector partitioner the index does not wrap.\<close>

lemma component_index_in_range:
  assumes "component < n_comp" "i < n" "n_comp * n \<le> 2 ^ 32"
  shows "component_index n_comp component i = i * n_comp + component"
    and "i * n_comp + component < n_comp * n"
proof -
  have "i * n_comp + component < Suc i * n_comp" using assms(1) by simp
  also have "\<dots> \<le> n * n_comp" using assms(2) by (intro mult_le_mono1) simp
  finally show lt: "i * n_comp + component < n_comp * n" by (simp add: mult.commute)
  with assms(3) show "component_index n_comp component i = i * n_comp + component"
    by (simp add: component_index_def)
qed

text \<open>
  The export loop started at \<open>i\<close> returns, keeps the entries below \<open>i\<close> and sets those
  from \<open>i\<close> on.
\<close>

lemma export_loop_result:
  assumes c: "component < n_comp" and wrap: "n_comp * n \<le> 2 ^ 32"
    and V: "length (owned V) = n_comp * n"
  shows "i \<le> n \<Longrightarrow> length (owned s) = n \<Longrightarrow>
    \<exists>s'. export_loop n_comp component V n i s = Some s' \<and> ghosts s' = ghosts s \<and>
      length (owned s') = n \<and>
      (\<forall>k < n. owned s' ! k =
         (if i \<le> k then owned V ! (k * n_comp + component) else owned s ! k))"
proof (induction "n - i" arbitrary: i s)
  case 0
  then show ?case by (simp add: export_loop.simps)
next
  case (Suc d)
  then have i: "i < n" by simp
  note ci = component_index_in_range [OF c i wrap]
  let ?x = "owned V ! (i * n_comp + component)"
  let ?s1 = "s\<lparr>owned := (owned s)[i := ?x]\<rparr>"
  have rd: "local_element V (component_index n_comp component i) = Some ?x"
    using ci V by (simp add: local_element_def)
  have wr: "set_local_element s i ?x = Some ?s1"
    using i Suc.prems by (simp add: set_local_element_def)
  have step: "export_loop n_comp component V n i s =
      export_loop n_comp component V n (Suc i) ?s1"
    using i rd wr by (subst export_loop.simps) simp
  have "d = n - Suc i" using Suc.hyps(2) by simp
  from Suc.hyps(1) [OF this, of ?s1] i Suc.prems
  obtain s' where s': "export_loop n_comp component V n (Suc i) ?s1 = Some s'"
      "ghosts s' = ghosts s" "length (owned s') = n"
      "\<forall>k<n. owned s' ! k =
         (if Suc i \<le> k then owned V ! (k * n_comp + component) else owned ?s1 ! k)"
    by auto
  have "\<forall>k<n. owned s' ! k =
      (if i \<le> k then owned V ! (k * n_comp + component) else owned s ! k)"
  proof (intro allI impI)
    fix k assume k: "k < n"
    with s'(4) Suc.prems
    show "owned s' ! k = (if i \<le> k then owned V ! (k * n_comp + component) else owned s ! k)"
      by (cases "k = i") auto
  qed
  with s' step show ?case by simp
qed

text \<open>Importing the values that are already stored returns the vector itself.\<close>

lemma import_loop_id:
  assumes c: "component < n_comp" and wrap: "n_comp * n \<le> 2 ^ 32"
    and V: "length (owned V) = n_comp * n"
    and s: "length (owned s) = n" "\<forall>k < n. owned s ! k = owned V ! (k * n_comp + component)"
  shows "import_loop n_comp component s n i V = Some V"
proof (induction "n - i" arbitrary: i)
  case 0
  then show ?case by (simp add: import_loop.simps)
next
  case (Suc d)
  then have i: "i < n" by simp
  note ci = component_index_in_range [OF c i wrap]
  have rd: "local_element s i = Some (owned V ! (i * n_comp + component))"
    using i s by (simp add: local_element_def)
  have wr: "set_local_element V (component_index n_comp component i)
       (owned V ! (i * n_comp + component)) = Some V"
    using ci V by (simp add: set_local_element_def)
  have "d = n - Suc i" using Suc.hyps(2) by simp
  from Suc.hyps(1) [OF this] have "import_loop n_comp component s n (Suc i) V = Some V" .
  with i rd wr show ?case by (subst import_loop.simps) simp
qed

text \<open>
  The import loop started at \<open>i\<close> returns; it stores the entries of the scalar vector
  from \<open>i\<close> on at the positions of the component and leaves every other entry alone.
\<close>

lemma import_loop_result:
  assumes c: "component < n_comp" and wrap: "n_comp * n \<le> 2 ^ 32"
    and t: "length (owned t) = n"
  shows "length (owned W) = n_comp * n \<Longrightarrow>
    \<exists>V'. import_loop n_comp component t n i W = Some V' \<and> ghosts V' = ghosts W \<and>
      length (owned V') = n_comp * n \<and>
      (\<forall>k < n_comp * n. owned V' ! k =
         (if k mod n_comp = component \<and> i \<le> k div n_comp then owned t ! (k div n_comp)
          else owned W ! k))"
proof (induction "n - i" arbitrary: i W)
  case 0
  then have ni: "n \<le> i" by simp
  have "\<forall>k < n_comp * n. \<not> i \<le> k div n_comp"
  proof (intro allI impI)
    fix k assume "k < n_comp * n"
    then have "k div n_comp < n" by (simp add: less_mult_imp_div_less mult.commute)
    with ni show "\<not> i \<le> k div n_comp" by simp
  qed
  with 0 show ?case by (simp add: import_loop.simps)
next
  case (Suc d)
  then have i: "i < n" by simp
  note ci = component_index_in_range [OF c i wrap]
  let ?x = "owned t ! i"
  let ?W1 = "W\<lparr>owned := (owned W)[i * n_comp + component := ?x]\<rparr>"
  have rd: "local_element t i = Some ?x"
    using i t by (simp add: local_element_def)
  have wr: "set_local_element W (component_index n_comp component i) ?x = Some ?W1"
    using ci Suc.prems by (simp add: set_local_element_def)
  have step: "import_loop n_comp component t n i W =
      import_loop n_comp component t n (Suc i) ?W1"
    using i rd wr by (subst import_loop.simps) simp
  have "d = n - Suc i" using Suc.hyps(2) by simp
  from Suc.hyps(1) [OF this, of ?W1] Suc.prems
  obtain V' where V': "import_loop n_comp component t n (Suc i) ?W1 = Some V'"
      "ghosts V' = ghosts W" "length (owned V') = n_comp * n"
      "\<forall>k<n_comp * n. owned V' ! k =
         (if k mod n_comp = component \<and> Suc i \<le> k div n_comp then owned t ! (k div n_comp)
          else owned ?W1 ! k)"
    by auto
  have "\<forall>k<n_comp * n. owned V' ! k =
      (if k mod n_comp = component \<and> i \<le> k div n_comp then owned t ! (k div n_comp)
       else owned W ! k)"
  proof (intro allI impI)
    fix k assume k: "k < n_comp * n"
    show "owned V' ! k =
      (if k mod n_comp = component \<and> i \<le> k div n_comp then owned t ! (k div n_comp)
       else owned W ! k)"
    proof (cases "k = i * n_comp + component")
      case True
      with V'(4) k c Suc.prems show ?thesis by simp
    next
      case False
      have "\<not> (k mod n_comp = component \<and> k div n_comp = i)"
      proof
        assume "k mod n_comp = component \<and> k div n_comp = i"
        then have "k = i * n_comp + component"
          using div_mult_mod_eq [of k n_comp] by simp
        with False show False by simp
      qed
      with V'(4) k False show ?thesis by (auto simp: Suc_le_eq le_less)
    qed
  qed
  with V' step show ?case by simp
qed

text \<open>
  C10. For every \<open>MultiComponentVector\<close> \<open>V\<close>, every component index \<open>c < n_comp\<close> and
  every scalar vector \<open>s\<close> over the scalar partitioner: \<open>export_component(s, c)\<close> sets
  \<open>s[i] = V[i * n_comp + c]\<close> for every locally owned \<open>i\<close>, and a subsequent
  \<open>import_component(s, c)\<close> restores exactly the exported values, so the round trip leaves
  \<open>V\<close> unchanged on all locally owned entries.

  \<open>V\<close> lives on the vector partitioner made from the partitioner of \<open>s\<close>: it owns
  \<open>n_comp\<close> entries for each owned entry of \<open>s\<close>, and their number is within the range
  of the \<open>unsigned int\<close> index. The export returns a vector with the owned entries
  \<open>V[i * n_comp + c]\<close> and the ghost entries that arrive. The import of any scalar vector
  \<open>t\<close> over the same partitioner returns a vector with \<open>t[i]\<close> at \<open>i * n_comp + c\<close> for
  every owned \<open>i\<close> and with every entry of another component, and every ghost entry, as
  in \<open>V\<close>. Importing what was just exported returns \<open>V\<close> itself.
\<close>

theorem export_import_round_trip:
  assumes "component < n_comp"
    and "n_comp * length (owned s) \<le> 2 ^ 32"
    and "length (owned V) = n_comp * length (owned s)"
    and "length (owned t) = length (owned s)"
  shows "(\<exists>s'. export_component n_comp incoming V s component = Some s' \<and>
       length (owned s') = length (owned s) \<and> ghosts s' = incoming \<and>
       (\<forall>i < length (owned s).
          local_element s' i = local_element V (i * n_comp + component) \<and>
          local_element s' i = Some (owned V ! (i * n_comp + component))) \<and>
       import_component n_comp V s' component = Some V) \<and>
     (\<exists>V'. import_component n_comp V t component = Some V' \<and>
       ghosts V' = ghosts V \<and> length (owned V') = length (owned V) \<and>
       (\<forall>i < length (owned t).
          local_element V' (i * n_comp + component) = local_element t i \<and>
          owned V' ! (i * n_comp + component) = owned t ! i) \<and>
       (\<forall>k < length (owned V). k mod n_comp \<noteq> component \<longrightarrow> owned V' ! k = owned V ! k))"
proof -
  let ?n = "length (owned s)"
  from export_loop_result [OF assms(1) assms(2) assms(3), of 0 s]
  obtain s1 where s1: "export_loop n_comp component V ?n 0 s = Some s1"
     "length (owned s1) = ?n" "\<forall>k < ?n. owned s1 ! k = owned V ! (k * n_comp + component)"
    by auto
  let ?s' = "update_ghost_values incoming s1"
  have e: "export_component n_comp incoming V s component = Some ?s'"
    using s1 by (simp add: export_component_def)
  have o: "owned ?s' = owned s1" "ghosts ?s' = incoming" by (simp_all add: update_ghost_values_def)
  have imp: "import_component n_comp V ?s' component = Some V"
    unfolding import_component_def o s1(2)
    by (rule import_loop_id [OF assms(1) assms(2) assms(3)]) (simp_all add: o s1)
  have rd: "\<forall>i < ?n. local_element ?s' i = local_element V (i * n_comp + component) \<and>
          local_element ?s' i = Some (owned V ! (i * n_comp + component))"
  proof (intro allI impI)
    fix i assume i: "i < ?n"
    from component_index_in_range(2) [OF assms(1) i assms(2)] assms(3) i s1 o
    show "local_element ?s' i = local_element V (i * n_comp + component) \<and>
          local_element ?s' i = Some (owned V ! (i * n_comp + component))"
      by (simp add: local_element_def)
  qed
  from e o s1(2) rd imp have first: "\<exists>s'. export_component n_comp incoming V s component = Some s' \<and>
       length (owned s') = length (owned s) \<and> ghosts s' = incoming \<and>
       (\<forall>i < length (owned s).
          local_element s' i = local_element V (i * n_comp + component) \<and>
          local_element s' i = Some (owned V ! (i * n_comp + component))) \<and>
       import_component n_comp V s' component = Some V"
    by auto
  from import_loop_result [OF assms(1) assms(2) assms(4), of V 0] assms(3)
  obtain V' where V': "import_loop n_comp component t ?n 0 V = Some V'" "ghosts V' = ghosts V"
    "length (owned V') = n_comp * ?n"
    "\<forall>k < n_comp * ?n. owned V' ! k =
         (if k mod n_comp = component then owned t ! (k div n_comp) else owned V ! k)"
    by auto
  have wr: "\<forall>i < length (owned t).
          local_element V' (i * n_comp + component) = local_element t i \<and>
          owned V' ! (i * n_comp + component) = owned t ! i"
  proof (intro allI impI)
    fix i assume "i < length (owned t)"
    with assms(4) have i: "i < ?n" by simp
    note lt = component_index_in_range(2) [OF assms(1) i assms(2)]
    with V'(4) assms(1) have "owned V' ! (i * n_comp + component) = owned t ! i" by simp
    with lt V'(3) i assms(4)
    show "local_element V' (i * n_comp + component) = local_element t i \<and>
          owned V' ! (i * n_comp + component) = owned t ! i"
      by (simp add: local_element_def)
  qed
  have "import_component n_comp V t component = Some V'"
    using V'(1) assms(4) by (simp add: import_component_def)
  with V' wr assms(3) have second: "\<exists>V'. import_component n_comp V t component = Some V' \<and>
       ghosts V' = ghosts V \<and> length (owned V') = length (owned V) \<and>
       (\<forall>i < length (owned t).
          local_element V' (i * n_comp + component) = local_element t i \<and>
          owned V' ! (i * n_comp + component) = owned t ! i) \<and>
       (\<forall>k < length (owned V). k mod n_comp \<noteq> component \<longrightarrow> owned V' ! k = owned V ! k)"
    by auto
  from first second show ?thesis by blast
qed

theorem export_import_round_trip_witness:
  "export_component 2 [9] \<lparr>owned = [1, 2, 3, 4 :: int], ghosts = [5, 6]\<rparr>
     \<lparr>owned = [0, 0], ghosts = [0]\<rparr> 1 = Some \<lparr>owned = [2, 4], ghosts = [9]\<rparr>
   \<and> import_component 2 \<lparr>owned = [1, 2, 3, 4 :: int], ghosts = [5, 6]\<rparr>
       \<lparr>owned = [2, 4], ghosts = [9]\<rparr> 1 = Some \<lparr>owned = [1, 2, 3, 4], ghosts = [5, 6]\<rparr>
   \<and> import_component 2 \<lparr>owned = [1, 2, 3, 4 :: int], ghosts = [5, 6]\<rparr>
       \<lparr>owned = [7, 8], ghosts = [0]\<rparr> 0 = Some \<lparr>owned = [7, 2, 8, 4], ghosts = [5, 6]\<rparr>"
  using export_import_round_trip [of 1 2 "\<lparr>owned = [0, 0 :: int], ghosts = [0]\<rparr>"
      "\<lparr>owned = [1, 2, 3, 4], ghosts = [5, 6]\<rparr>" "\<lparr>owned = [7, 8], ghosts = [0]\<rparr>" "[9]"]
  by (simp add: export_component_def import_component_def export_loop.simps
      import_loop.simps local_element_def set_local_element_def component_index_def
      update_ghost_values_def)

subsection \<open>\<open>Limiter::apply_relaxation\<close>\<close>

text \<open>The three branches of \<open>r_i\<close> are the power \<open>1.5 / dim'\<close> of \<open>hd_i\<close>.\<close>

lemma sqrt_as_powr: "0 \<le> x \<Longrightarrow> sqrt x = x powr (1 / 2)"
  by (simp add: powr_half_sqrt)

lemma cube_as_powr: "0 \<le> (y::real) \<Longrightarrow> y * y * y = y powr 3"
  by (cases "y = 0") (simp_all add: powr_numeral power3_eq_cube)

lemma relaxation_r_i_powr:
  assumes "dim' = 1 \<or> dim' = 2 \<or> dim' = 3" and "0 \<le> hd_i"
  shows "relaxation_r_i dim' hd_i factor = Some (factor * hd_i powr (1.5 / real dim'))"
proof -
  have s: "sqrt hd_i = hd_i powr (1 / 2)" using assms(2) by (rule sqrt_as_powr)
  have d1: "fixed_power_3 (sqrt hd_i) = hd_i powr (3 / 2)"
    unfolding fixed_power_3_def
    by (subst cube_as_powr) (simp_all add: s powr_powr)
  have ss: "sqrt (sqrt hd_i) = hd_i powr (1 / 4)"
    by (subst sqrt_as_powr) (simp_all add: s powr_powr)
  have d2: "fixed_power_3 (sqrt (sqrt hd_i)) = hd_i powr (3 / 4)"
    unfolding fixed_power_3_def
    by (subst cube_as_powr) (simp_all add: ss powr_powr)
  from assms(1) consider "dim' = 1" | "dim' = 2" | "dim' = 3" by blast
  then show ?thesis
  proof cases
    case 1
    with assms(2) show ?thesis by (simp add: relaxation_r_i_def Let_def d1)
  next
    case 2
    with assms(2) show ?thesis by (simp add: relaxation_r_i_def Let_def d2)
  next
    case 3
    with assms(2) show ?thesis by (simp add: relaxation_r_i_def Let_def s)
  qed
qed

text \<open>
  C7. For every accumulated bounds state, \<open>Limiter::apply_relaxation(hd_i, factor)\<close> uses
  the relaxation radius \<open>r_i = factor * hd_i^(1.5/d)\<close>, that is \<open>hd_i^(3/2)\<close> in 1D,
  \<open>hd_i^(3/4)\<close> in 2D, \<open>hd_i^(1/2)\<close> in 3D, and caps the relaxed \<open>rho_max\<close> at the covolume
  bound \<open>(gamma_min + 1) * rho_max / (gamma_min - 1 + 2 * b * rho_max)\<close>, where \<open>b\<close> is the
  covolume constant \<open>eos_interpolation_b()\<close>.

  Stated for a mesh size \<open>hd_i\<close> that is not negative, a positive machine epsilon and a
  covolume bound with a divisor other than zero. The call returns; the new bounds are
  the ones of the source with \<open>r_i\<close> the stated power; the new \<open>rho_max\<close> is the smaller of
  the covolume bound and \<open>(1 + r_i) * rho_max\<close>.
\<close>

theorem apply_relaxation_radius_and_cap:
  assumes "dim' = 1 \<or> dim' = 2 \<or> dim' = 3" and "0 \<le> hd_i" and "0 < eps"
    and "gamma_min st - 1 + 2 * b * rho_max st \<noteq> 0"
  shows "\<exists>st'. apply_relaxation dim' eps b hd_i factor st = Some st' \<and>
     relaxation_r_i dim' hd_i factor = Some (factor * hd_i powr (1.5 / real dim')) \<and>
     relaxation_r_i 1 hd_i factor = Some (factor * hd_i powr (3 / 2)) \<and>
     relaxation_r_i 2 hd_i factor = Some (factor * hd_i powr (3 / 4)) \<and>
     relaxation_r_i 3 hd_i factor = Some (factor * hd_i powr (1 / 2)) \<and>
     rho_max st' =
       min ((gamma_min st + 1) * rho_max st / (gamma_min st - 1 + 2 * b * rho_max st))
           ((1 + factor * hd_i powr (1.5 / real dim')) * rho_max st) \<and>
     rho_max st' \<le> (gamma_min st + 1) * rho_max st / (gamma_min st - 1 + 2 * b * rho_max st) \<and>
     rho_min st' =
       max ((1 - factor * hd_i powr (1.5 / real dim')) * rho_min st)
           (rho_min st - \<bar>rho_relaxation_numerator st\<bar> / (\<bar>rho_relaxation_denominator st\<bar> + eps)) \<and>
     s_min st' =
       max ((1 - factor * hd_i powr (1.5 / real dim')) * s_min st)
           (2 * s_min st - s_interp_max st) \<and>
     gamma_min st' = gamma_min st"
proof -
  note r = relaxation_r_i_powr [OF assms(1) assms(2), of factor]
  have r1: "relaxation_r_i 1 hd_i factor = Some (factor * hd_i powr (3 / 2))"
    using relaxation_r_i_powr [of 1 hd_i factor] assms(2) by simp
  have r2: "relaxation_r_i 2 hd_i factor = Some (factor * hd_i powr (3 / 4))"
    using relaxation_r_i_powr [of 2 hd_i factor] assms(2) by simp
  have r3: "relaxation_r_i 3 hd_i factor = Some (factor * hd_i powr (1 / 2))"
    using relaxation_r_i_powr [of 3 hd_i factor] assms(2) by simp
  have pos: "\<bar>rho_relaxation_denominator st\<bar> + eps \<noteq> 0" using assms(3) by simp
  have relax: "0 \<le> \<bar>rho_relaxation_numerator st\<bar> / (\<bar>rho_relaxation_denominator st\<bar> + eps)"
    using assms(3) by simp
  show ?thesis
    using r r1 r2 r3 pos relax assms(4)
    by (simp add: apply_relaxation_def finite_quotient_def Let_def min_def)
qed

theorem apply_relaxation_radius_and_cap_witness:
  "apply_relaxation 1 (1 / 8) 0 4 2
     \<lparr>rho_min = 1, rho_max = 2, s_min = 1, gamma_min = 3, rho_relaxation_numerator = 1,
      rho_relaxation_denominator = 7 / 8, s_interp_max = 3\<rparr>
   = Some \<lparr>rho_min = 0, rho_max = 4, s_min = - 1, gamma_min = 3, rho_relaxation_numerator = 1,
      rho_relaxation_denominator = 7 / 8, s_interp_max = 3\<rparr>
   \<and> relaxation_r_i 1 4 2 = Some 16"
  using apply_relaxation_radius_and_cap [of 1 4 "1 / 8"
      "\<lparr>rho_min = 1, rho_max = 2, s_min = 1, gamma_min = 3, rho_relaxation_numerator = 1,
        rho_relaxation_denominator = 7 / 8, s_interp_max = 3\<rparr>" 0 2]
  by (simp add: apply_relaxation_def relaxation_r_i_def fixed_power_3_def
      finite_quotient_def Let_def)

subsection \<open>The loops over the stencil\<close>


text \<open>
  A loop whose body for \<open>x\<close> writes the entries with the key of \<open>x\<close> only, computing them
  from a part of the state that the loop leaves alone (\<open>stable\<close>) and from the entries
  themselves.
\<close>

lemma fold_keyed:
  assumes d: "distinct (map key xs)"
    and st: "\<And>x s. stable (f x s) = stable s"
    and other: "\<And>x s a. a \<noteq> key x \<Longrightarrow> view (f x s) a = view s a"
    and own: "\<And>x s. view (f x s) (key x) = G x (stable s) (view s (key x))"
  shows "stable (fold f xs s) = stable s"
    and "view (fold f xs s) a =
       (case find (\<lambda>x. key x = a) xs of None \<Rightarrow> view s a | Some x \<Rightarrow> G x (stable s) (view s a))"
proof -
  show "stable (fold f xs s) = stable s"
    by (induction xs arbitrary: s) (simp_all add: st)
  from d show "view (fold f xs s) a =
       (case find (\<lambda>x. key x = a) xs of None \<Rightarrow> view s a | Some x \<Rightarrow> G x (stable s) (view s a))"
  proof (induction xs arbitrary: s)
    case Nil
    then show ?case by simp
  next
    case (Cons x xs)
    show ?case
    proof (cases "key x = a")
      case True
      from Cons.prems have "key x \<notin> set (map key xs)" by simp
      with True have "\<not> (\<exists>y. y \<in> set xs \<and> key y = a)" by (auto simp: image_iff)
      then have "find (\<lambda>x. key x = a) xs = None"
        by (simp add: find_None_iff)
      with Cons True own [of x s] show ?thesis by simp
    next
      case False
      then have "view (f x s) a = view s a" by (intro other) auto
      with False Cons show ?thesis by (simp add: st cong: option.case_cong)
    qed
  qed
qed

lemma loop_rows_1: "loop_rows (Suc 0) a b = map (\<lambda>i. (i, Suc 0, i)) [a..<b]"
proof -
  have "concat (map (\<lambda>i. [(i, Suc 0, i)]) xs) = map (\<lambda>i. (i, Suc 0, i)) xs" for xs :: "nat list"
    by (induction xs) simp_all
  then show ?thesis by (simp add: loop_rows_def loop_indices_def)
qed

lemma filter_dvd_block:
  assumes "1 \<le> W"
  shows "filter (\<lambda>i. W dvd i) [W * q..<W * q + W] = [W * q]"
proof -
  have "[W * q..<W * q + W] = W * q # [Suc (W * q)..<W * q + W]"
    using assms by (simp add: upt_conv_Cons)
  moreover have "filter (\<lambda>i. W dvd i) [Suc (W * q)..<W * q + W] = []"
  proof (rule filter_False, rule ballI)
    fix x assume "x \<in> set [Suc (W * q)..<W * q + W]"
    then obtain k where k: "x = W * q + k" "0 < k" "k < W"
      by (auto intro: that [of "x - W * q"])
    show "\<not> W dvd x"
    proof
      assume "W dvd x"
      with k(1) have "W dvd k" by (simp add: dvd_add_right_iff)
      with k(2) have "W \<le> k" by (auto dest: dvd_imp_le)
      with k(3) show False by simp
    qed
  qed
  ultimately show ?thesis by simp
qed

lemma upt_block: "[0..<W * Suc q] = [0..<W * q] @ [W * q..<W * q + W]"
proof -
  have "W * Suc q = W * q + W" by simp
  then show ?thesis by (simp only: upt_add_eq_append [OF le0])
qed

lemma loop_indices_simd:
  assumes "1 \<le> W"
  shows "loop_indices W 0 (W * q) = map (\<lambda>g. W * g) [0..<q]"
proof (induction q)
  case 0
  then show ?case by (simp add: loop_indices_def)
next
  case (Suc q)
  have "loop_indices W 0 (W * Suc q) =
      filter (\<lambda>i. W dvd i) [0..<W * q] @ filter (\<lambda>i. W dvd i) [W * q..<W * q + W]"
    unfolding loop_indices_def upt_block by simp
  also have "filter (\<lambda>i. W dvd i) [0..<W * q] = map (\<lambda>g. W * g) [0..<q]"
    using Suc by (simp add: loop_indices_def)
  also have "filter (\<lambda>i. W dvd i) [W * q..<W * q + W] = [W * q]"
    by (rule filter_dvd_block [OF assms])
  finally show ?case by simp
qed

lemma loop_rows_simd_rows:
  assumes "1 \<le> W"
  shows "map (\<lambda>(i, stride, row). row) (loop_rows W 0 (W * q)) = [0..<W * q]"
proof (induction q)
  case 0
  then show ?case by (simp add: loop_rows_def loop_indices_def)
next
  case (Suc q)
  have blk: "map (\<lambda>k. W * q + k) [0..<W] = [W * q..<W * q + W]"
    by (simp add: map_add_upt add.commute)
  have "map (\<lambda>(i, stride, row). row) (loop_rows W 0 (W * Suc q)) =
     map (\<lambda>(i, stride, row). row) (loop_rows W 0 (W * q)) @ map (\<lambda>k. W * q + k) [0..<W]"
    unfolding loop_rows_def loop_indices_simd [OF assms] by (simp add: comp_def)
  also have "\<dots> = [0..<W * q] @ [W * q..<W * q + W]"
    by (simp only: Suc blk)
  finally show ?case by (simp only: upt_block)
qed

lemma in_loop_rows:
  "(i, stride, row) \<in> set (loop_rows W a b) \<longleftrightarrow>
     stride = W \<and> a \<le> i \<and> i < b \<and> W dvd (i - a) \<and> i \<le> row \<and> row < i + W"
proof
  assume "(i, stride, row) \<in> set (loop_rows W a b)"
  then show "stride = W \<and> a \<le> i \<and> i < b \<and> W dvd (i - a) \<and> i \<le> row \<and> row < i + W"
    by (auto simp: loop_rows_def loop_indices_def)
next
  assume h: "stride = W \<and> a \<le> i \<and> i < b \<and> W dvd (i - a) \<and> i \<le> row \<and> row < i + W"
  then have "row - i \<in> {0..<W}" and "row = i + (row - i)" by auto
  then have "(i, W, row) \<in> (\<lambda>k. (i, W, i + k)) ` {0..<W}" by (metis (mono_tags, lifting) image_eqI)
  with h show "(i, stride, row) \<in> set (loop_rows W a b)"
    by (auto simp: loop_rows_def loop_indices_def)
qed

lemma stencil_rows_rows:
  assumes "wf_ranges E"
  shows "map (\<lambda>(i, stride, row). row) (stencil_rows E) =
     [n_locally_internal (od E)..<n_locally_owned (od E)] @ [0..<n_locally_internal (od E)]"
proof -
  from assms obtain q where q: "n_locally_internal (od E) = simd_length (cfg E) * q"
    by (auto simp: wf_ranges_def dvd_def)
  from assms have W: "1 \<le> simd_length (cfg E)" by (simp add: wf_ranges_def)
  show ?thesis
    unfolding stencil_rows_def map_append
    using loop_rows_simd_rows [OF W, of q]
    by (simp add: loop_rows_1 comp_def q)
qed

lemma stencil_rows_distinct:
  assumes "wf_ranges E"
  shows "distinct (map (\<lambda>(i, stride, row). row) (stencil_rows E))"
  unfolding stencil_rows_rows [OF assms] by auto

lemma stencil_rows_cover:
  assumes "wf_ranges E" and "a < n_locally_owned (od E)"
  shows "\<exists>i stride. (i, stride, a) \<in> set (stencil_rows E)"
proof -
  have "a \<in> set (map (\<lambda>(i, stride, row). row) (stencil_rows E))"
    unfolding stencil_rows_rows [OF assms(1)] using assms(2) by auto
  then obtain x where x: "x \<in> set (stencil_rows E)" "(\<lambda>(i, stride, row). row) x = a"
    by auto
  obtain i stride row where "x = (i, stride, row)" by (cases x) auto
  with x show ?thesis by auto
qed

lemma stencil_rows_owned:
  assumes "wf_ranges E" and "(i, stride, a) \<in> set (stencil_rows E)"
  shows "a < n_locally_owned (od E)"
proof -
  from assms(2) have "a \<in> set (map (\<lambda>(i, stride, row). row) (stencil_rows E))"
    by (force simp: image_iff)
  then show ?thesis
    unfolding stencil_rows_rows [OF assms(1)] using assms(1) by (auto simp: wf_ranges_def)
qed

subsection \<open>Rows of constrained degrees of freedom\<close>























end
